theory Spec2Isabelle
  imports Complex_Main "HOL-Library.Word"
begin

section \<open>Values of the host language\<close>

text \<open>
  A JavaScript string is a sequence of 16-bit code units. A string literal of the
  source is written \<open>lit ''...''\<close>; all literals of the component are ASCII.
\<close>

type_synonym jsstring = "16 word list"

definition lit :: "string \<Rightarrow> jsstring" where
  "lit s = map of_char s"

text \<open>
  \<open>String.prototype.trim\<close> strips WhiteSpace and LineTerminator code points from both
  ends: TAB, LF, VT, FF, CR, SP, NBSP, U+1680, U+2000..U+200A, U+2028, U+2029, U+202F,
  U+205F, U+3000 and U+FEFF. All lie in the basic plane, so the test is per code unit.
\<close>

definition isWhiteSpace :: "16 word \<Rightarrow> bool" where
  "isWhiteSpace c \<longleftrightarrow>
     c = 0x09 \<or> c = 0x0A \<or> c = 0x0B \<or> c = 0x0C \<or> c = 0x0D \<or> c = 0x20 \<or> c = 0xA0 \<or>
     c = 0x1680 \<or> (0x2000 \<le> c \<and> c \<le> 0x200A) \<or> c = 0x2028 \<or> c = 0x2029 \<or>
     c = 0x202F \<or> c = 0x205F \<or> c = 0x3000 \<or> c = 0xFEFF"

definition trim :: "jsstring \<Rightarrow> jsstring" where
  "trim s = rev (dropWhile isWhiteSpace (rev (dropWhile isWhiteSpace s)))"

text \<open>\<open>s.includes(pat)\<close>: \<open>pat\<close> occurs in \<open>s\<close> as a contiguous run.\<close>

fun startsWith :: "jsstring \<Rightarrow> jsstring \<Rightarrow> bool" where
  "startsWith s [] = True"
| "startsWith [] (p # ps) = False"
| "startsWith (c # cs) (p # ps) = (c = p \<and> startsWith cs ps)"

fun includesStr :: "jsstring \<Rightarrow> jsstring \<Rightarrow> bool" where
  "includesStr [] pat = (pat = [])"
| "includesStr (c # cs) pat = (startsWith (c # cs) pat \<or> includesStr cs pat)"

text \<open>
  What \<open>JSON.parse\<close> can return. The component only asks whether the value is an
  array and compares elements with a string, so numbers stay uninspected.
\<close>

datatype json =
    JNull
  | JBool bool
  | JNumber real
  | JString jsstring
  | JArray "json list"
  | JObject "(jsstring \<times> json) list"

text \<open>
  A thrown value or a rejection reason: an \<open>Error\<close> with its message, a
  \<open>DOMException\<close> (also an \<open>Error\<close>) with its name and message, or anything else
  (the \<open>onerror\<close> event of an image, for one).
\<close>

datatype thrown =
    ErrorObj jsstring
  | DOMException jsstring jsstring
  | NonError

fun instanceofError :: "thrown \<Rightarrow> bool" where
  "instanceofError (ErrorObj m) = True"
| "instanceofError (DOMException n m) = True"
| "instanceofError NonError = False"

fun message :: "thrown \<Rightarrow> jsstring" where
  "message (ErrorObj m) = m"
| "message (DOMException n m) = m"
| "message NonError = []"

section \<open>Numbers\<close>

text \<open>
  A JavaScript Number is an IEEE-754 binary64 value. The finite ones are rationals, and
  each arithmetic operation returns the exact result rounded to the nearest representable
  value, ties to the even significand. \<open>binexp x\<close> is the binary exponent of \<open>x\<close>
  (\<open>2 ^ e \<le> |x| < 2 ^ (e + 1)\<close>), found by repeated doubling or halving; the fuel covers
  the whole finite range. \<open>fl\<close> rounds to 53 significant bits, with the exponent held at
  \<open>- 1022\<close> for subnormal values. Overflow to infinity is not modelled: the thumbnail
  arithmetic stays below \<open>2 ^ 33\<close>.
\<close>

definition pow2 :: "int \<Rightarrow> rat" where
  "pow2 e = (if 0 \<le> e then 2 ^ nat e else 1 / 2 ^ nat (- e))"

fun scale_exp :: "nat \<Rightarrow> rat \<Rightarrow> int" where
  "scale_exp 0 x = 0"
| "scale_exp (Suc n) x =
     (if x < 1 then scale_exp n (2 * x) - 1
      else if 2 \<le> x then scale_exp n (x / 2) + 1
      else 0)"

definition EXPONENT_FUEL :: nat where
  "EXPONENT_FUEL = 2100"

definition binexp :: "rat \<Rightarrow> int" where
  "binexp x = scale_exp EXPONENT_FUEL \<bar>x\<bar>"

definition round_half_even :: "rat \<Rightarrow> int" where
  "round_half_even q =
     (let n = \<lfloor>q\<rfloor>; f = q - of_int n
      in if f < 1 / 2 then n
         else if 1 / 2 < f then n + 1
         else if even n then n else n + 1)"

definition fl :: "rat \<Rightarrow> rat" where
  "fl x =
     (if x = 0 then 0
      else let e = max (binexp x) (- 1022); u = pow2 (e - 52)
           in of_int (round_half_even (x / u)) * u)"

definition js_div :: "rat \<Rightarrow> rat \<Rightarrow> rat" where
  "js_div a b = fl (a / b)"

definition js_mul :: "rat \<Rightarrow> rat \<Rightarrow> rat" where
  "js_mul a b = fl (a * b)"

text \<open>
  Assigning a Number to \<open>canvas.width\<close> or \<open>canvas.height\<close> converts it to a Web IDL
  \<open>unsigned long\<close>: truncate towards zero, then reduce modulo \<open>2 ^ 32\<close>.
\<close>

definition toUnsignedLong :: "rat \<Rightarrow> nat" where
  "toUnsignedLong x = nat ((if 0 \<le> x then \<lfloor>x\<rfloor> else \<lceil>x\<rceil>) mod 2 ^ 32)"

section \<open>Component state\<close>

definition LOCAL_STORAGE_HISTORY_KEY :: jsstring where
  "LOCAL_STORAGE_HISTORY_KEY = lit ''visionaryAppImageHistory''"

definition MAX_HISTORY_LENGTH :: nat where
  "MAX_HISTORY_LENGTH = 5"

definition MAX_UNDO_STEPS :: nat where
  "MAX_UNDO_STEPS = 5"

record suggestion =
  title :: jsstring
  description :: jsstring

record RefinePromptV2Output =
  basic :: "suggestion list"
  intermediate :: "suggestion list"
  advanced :: "suggestion list"

record SuggestEditsOutput =
  creative :: "suggestion list"
  style :: "suggestion list"
  improvements :: "suggestion list"

datatype loader = LoaderGenerate | LoaderEdit | LoaderSuggest

datatype toast_variant = Plain | Destructive

record toast_msg =
  variant :: toast_variant
  toast_title :: jsstring
  toast_description :: jsstring

text \<open>The calls to the remote capabilities, in the order they are issued.\<close>

datatype remote_call =
    GenerateImageCall jsstring
  | EditImageCall jsstring jsstring
  | RefinePromptCall jsstring
  | SuggestEditsCall jsstring

text \<open>
  The \<open>useState\<close> cells of \<open>ImageForge\<close>, followed by what the component acts on
  outside itself: the storage slot under \<open>LOCAL_STORAGE_HISTORY_KEY\<close> (\<open>None\<close> when
  \<open>getItem\<close> returns \<open>null\<close>), the toasts shown, and the remote calls issued.
  \<open>imageHistory\<close> is typed \<open>string[]\<close> in the source, but it is filled from
  \<open>JSON.parse\<close> unchecked, so its elements are JSON values here.
\<close>

record state =
  prompt :: jsstring
  editPrompt :: jsstring
  imageUrl :: "jsstring option"
  undoStack :: "jsstring list"
  isUploadedImage :: bool
  isLoading :: bool
  isRefining :: bool
  error :: "jsstring option"
  imageHistory :: "json list"
  activeLoader :: "loader option"
  refinedPrompts :: "RefinePromptV2Output option"
  suggestedEdits :: "SuggestEditsOutput option"
  isHistorySheetOpen :: bool
  localStorage :: "jsstring option"
  toasts :: "toast_msg list"
  calls :: "remote_call list"

definition initialState :: "jsstring option \<Rightarrow> state" where
  "initialState slot =
     \<lparr> prompt = [], editPrompt = [], imageUrl = None, undoStack = [],
       isUploadedImage = False, isLoading = False, isRefining = False, error = None,
       imageHistory = [], activeLoader = None, refinedPrompts = None,
       suggestedEdits = None, isHistorySheetOpen = False,
       localStorage = slot, toasts = [], calls = [] \<rparr>"

text \<open>
  What the surroundings answer during one run of a handler: the remote capabilities
  (a rejection is \<open>Inl\<close>), the image decoder and canvas of the browser, and the storage
  and JSON built-ins.
\<close>

record drawing =
  source :: jsstring
  canvas_width :: nat
  canvas_height :: nat
  draw_width :: rat
  draw_height :: rat

record env =
  generateImage :: "jsstring \<Rightarrow> thrown + jsstring"
  editImage :: "jsstring \<Rightarrow> jsstring \<Rightarrow> thrown + jsstring"
  refinePromptV2 :: "jsstring \<Rightarrow> thrown + RefinePromptV2Output"
  suggestEdits :: "jsstring \<Rightarrow> thrown + SuggestEditsOutput"
  loadImage :: "jsstring \<Rightarrow> (32 word \<times> 32 word) option"
  getContext2d :: bool
  toDataURL :: "drawing \<Rightarrow> jsstring \<Rightarrow> rat \<Rightarrow> jsstring"
  getItemError :: "thrown option"
  setItemError :: "jsstring \<Rightarrow> thrown option"
  JSON_parse :: "jsstring \<Rightarrow> thrown + json"
  JSON_stringify :: "json \<Rightarrow> jsstring"

definition addToast :: "toast_variant \<Rightarrow> jsstring \<Rightarrow> jsstring \<Rightarrow> state \<Rightarrow> state" where
  "addToast v t d s =
     s\<lparr>toasts := toasts s @ [\<lparr>variant = v, toast_title = t, toast_description = d\<rparr>]\<rparr>"

section \<open>Thumbnail encoder\<close>

text \<open>
  \<open>createThumbnailDataUri\<close>: the image loads with its intrinsic width and height
  (\<open>unsigned long\<close> attributes) or fires \<open>onerror\<close>; the dimensions are scaled in
  Number arithmetic; the canvas takes them as \<open>unsigned long\<close>; the drawing is encoded
  as JPEG at quality \<open>0.7\<close>.
\<close>

definition scaledSize :: "rat \<Rightarrow> rat \<Rightarrow> rat \<Rightarrow> rat \<times> rat" where
  "scaledSize width height maxSize =
     (if width > height then
        (if width > maxSize then (maxSize, js_mul height (js_div maxSize width))
         else (width, height))
      else
        (if height > maxSize then (js_mul width (js_div maxSize height), maxSize)
         else (width, height)))"

definition JPEG_QUALITY :: rat where
  "JPEG_QUALITY = fl (7 / 10)"

definition thumbnailDrawing :: "jsstring \<Rightarrow> 32 word \<times> 32 word \<Rightarrow> nat \<Rightarrow> drawing" where
  "thumbnailDrawing dataUri dims maxSize =
     (let (width, height) =
            scaledSize (of_nat (unat (fst dims))) (of_nat (unat (snd dims))) (of_nat maxSize)
      in \<lparr> source = dataUri,
           canvas_width = toUnsignedLong width, canvas_height = toUnsignedLong height,
           draw_width = width, draw_height = height \<rparr>)"

definition createThumbnailDataUri :: "env \<Rightarrow> jsstring \<Rightarrow> nat \<Rightarrow> thrown + jsstring" where
  "createThumbnailDataUri en dataUri maxSize =
     (case loadImage en dataUri of
        None \<Rightarrow> Inl NonError
      | Some dims \<Rightarrow>
          if \<not> getContext2d en then Inl (ErrorObj (lit ''Could not get canvas context''))
          else Inr (toDataURL en (thumbnailDrawing dataUri dims maxSize)
                      (lit ''image/jpeg'') JPEG_QUALITY))"

section \<open>History store\<close>

text \<open>
  The effect that loads the history on mount. A falsy \<open>storedHistory\<close> (\<open>null\<close> or the
  empty string) and a parsed value that is no array leave the state alone; only a throw
  inside the \<open>try\<close> reaches the toast.
\<close>

definition loadHistoryEffect :: "env \<Rightarrow> state \<Rightarrow> state" where
  "loadHistoryEffect en s =
     (case getItemError en of
        Some e \<Rightarrow>
          addToast Destructive (lit ''History Load Failed'')
            (lit ''Could not load your image history.'') s
      | None \<Rightarrow>
          (case localStorage s of
             None \<Rightarrow> s
           | Some storedHistory \<Rightarrow>
               if storedHistory = [] then s
               else (case JSON_parse en storedHistory of
                       Inl e \<Rightarrow>
                         addToast Destructive (lit ''History Load Failed'')
                           (lit ''Could not load your image history.'') s
                     | Inr (JArray parsedHistory) \<Rightarrow> s\<lparr>imageHistory := parsedHistory\<rparr>
                     | Inr _ \<Rightarrow> s)))"

text \<open>
  The effect that runs after every change of \<open>imageHistory\<close> and writes the whole list
  to the slot.
\<close>

definition saveHistoryEffect :: "env \<Rightarrow> state \<Rightarrow> state" where
  "saveHistoryEffect en s =
     (let payload = JSON_stringify en (JArray (imageHistory s))
      in case setItemError en payload of
           None \<Rightarrow> s\<lparr>localStorage := Some payload\<rparr>
         | Some e \<Rightarrow>
             addToast Destructive (lit ''History Save Failed'')
               (case e of
                  DOMException n m \<Rightarrow>
                    if n = lit ''QuotaExceededError''
                    then lit ''Could not save to image history as browser storage is full. The history is limited to 5 images, but current images may be too large. Older images are automatically removed.''
                    else lit ''An error occurred while saving image history.''
                | _ \<Rightarrow> lit ''An error occurred while saving image history.'') s)"

text \<open>The updater passed to \<open>setImageHistory\<close> in \<open>updateImageHistory\<close>.\<close>

definition recordThumbnail :: "jsstring \<Rightarrow> json list \<Rightarrow> json list" where
  "recordThumbnail thumbnailUrl prevHistory =
     (let filteredHistory = filter (\<lambda>url. url \<noteq> JString thumbnailUrl) prevHistory;
          newHistory = JString thumbnailUrl # filteredHistory
      in take MAX_HISTORY_LENGTH newHistory)"

text \<open>\<open>updateImageHistory\<close> once the thumbnail promise has settled with \<open>r\<close>.\<close>

definition thumbnailSettled :: "env \<Rightarrow> thrown + jsstring \<Rightarrow> state \<Rightarrow> state" where
  "thumbnailSettled en r s =
     (case r of
        Inr thumbnailUrl \<Rightarrow>
          saveHistoryEffect en
            (s\<lparr>imageHistory := recordThumbnail thumbnailUrl (imageHistory s)\<rparr>)
      | Inl e \<Rightarrow>
          addToast Destructive (lit ''History Update Failed'')
            (lit ''Could not create a thumbnail to save in history.'') s)"

definition updateImageHistory :: "env \<Rightarrow> jsstring \<Rightarrow> state \<Rightarrow> state" where
  "updateImageHistory en newImageUrl s =
     thumbnailSettled en (createThumbnailDataUri en newImageUrl 400) s"

section \<open>Orchestrator\<close>

datatype api_context = CtxGenerate | CtxEdit | CtxSuggest | CtxRefine

definition RATE_LIMIT_MESSAGE :: jsstring where
  "RATE_LIMIT_MESSAGE = lit ''You have exceeded your current quota for the AI model. Please check your Google Cloud project to ensure billing is enabled and your plan supports the desired usage. This is not an application error.''"

text \<open>
  \<open>handleApiError\<close>: the title and message it reports, or \<open>None\<close> on the early
  return of the \<open>refine\<close> context. A message containing \<open>429\<close> wins over the context,
  also for \<open>refine\<close>.
\<close>

definition apiErrorReport :: "thrown \<Rightarrow> api_context \<Rightarrow> (jsstring \<times> jsstring) option" where
  "apiErrorReport e ctx =
     (let errorMessage =
            (if instanceofError e then message e else lit ''An unknown error occurred.'')
      in if includesStr errorMessage (lit ''429'')
         then Some (lit ''Rate Limit Exceeded'', RATE_LIMIT_MESSAGE)
         else (case ctx of
                 CtxGenerate \<Rightarrow>
                   Some (lit ''Generation Failed'', lit ''Could not generate image. '' @ errorMessage)
               | CtxEdit \<Rightarrow>
                   Some (lit ''Editing Failed'', lit ''Could not edit image. '' @ errorMessage)
               | CtxSuggest \<Rightarrow>
                   Some (lit ''Suggestion Failed'', lit ''Could not suggest edits. '' @ errorMessage)
               | CtxRefine \<Rightarrow> None))"

definition handleApiError :: "thrown \<Rightarrow> api_context \<Rightarrow> state \<Rightarrow> state" where
  "handleApiError e ctx s =
     (case apiErrorReport e ctx of
        None \<Rightarrow> s
      | Some (errorTitle, errorMessage) \<Rightarrow>
          addToast Destructive errorTitle errorMessage (s\<lparr>error := Some errorMessage\<rparr>))"

definition handleSuggestEdits :: "env \<Rightarrow> jsstring \<Rightarrow> state \<Rightarrow> state" where
  "handleSuggestEdits en dataUri s =
     (let s1 = s\<lparr>isLoading := True, activeLoader := Some LoaderSuggest, error := None,
                 suggestedEdits := None, calls := calls s @ [SuggestEditsCall dataUri]\<rparr>;
          s2 = (case suggestEdits en dataUri of
                  Inr results \<Rightarrow> s1\<lparr>suggestedEdits := Some results\<rparr>
                | Inl e \<Rightarrow> handleApiError e CtxSuggest s1)
      in s2\<lparr>isLoading := False, activeLoader := None\<rparr>)"

subsection \<open>Generate\<close>

text \<open>
  \<open>handleGenerateImage\<close> between its suspension points. \<open>generateBegin\<close> is the part
  that runs when the handler is called, up to the call of \<open>generateImage\<close>; it is only
  reached with a prompt that survives \<open>trim\<close>.
\<close>

definition generateBegin :: "jsstring \<Rightarrow> state \<Rightarrow> state" where
  "generateBegin generationPrompt s =
     s\<lparr>isLoading := True, activeLoader := Some LoaderGenerate, error := None,
       isUploadedImage := False, imageUrl := None, undoStack := [],
       suggestedEdits := None, refinedPrompts := None,
       calls := calls s @ [GenerateImageCall generationPrompt]\<rparr>"

definition generateFinally :: "state \<Rightarrow> state" where
  "generateFinally s = s\<lparr>isLoading := False, isRefining := False, activeLoader := None\<rparr>"

text \<open>After \<open>updateImageHistory\<close> has returned: up to the call of \<open>refinePromptV2\<close>.\<close>

definition refineBegin :: "jsstring \<Rightarrow> state \<Rightarrow> state" where
  "refineBegin generationPrompt s =
     s\<lparr>editPrompt := [], isRefining := True,
       calls := calls s @ [RefinePromptCall generationPrompt]\<rparr>"

text \<open>After \<open>refinePromptV2\<close> has settled with \<open>r\<close>.\<close>

definition refineSettled :: "thrown + RefinePromptV2Output \<Rightarrow> state \<Rightarrow> state" where
  "refineSettled r s =
     generateFinally
       (case r of
          Inr refinedResults \<Rightarrow> s\<lparr>refinedPrompts := Some refinedResults\<rparr>
        | Inl refineError \<Rightarrow> handleApiError refineError CtxRefine s)"

text \<open>One run of the handler with nothing else running in between.\<close>

definition handleGenerateImage :: "env \<Rightarrow> jsstring \<Rightarrow> state \<Rightarrow> state" where
  "handleGenerateImage en generationPrompt s =
     (if trim generationPrompt = []
      then s\<lparr>error := Some (lit ''Cannot generate image from an empty prompt.'')\<rparr>
      else
        let s1 = generateBegin generationPrompt s
        in case generateImage en generationPrompt of
             Inl e \<Rightarrow> generateFinally (handleApiError e CtxGenerate s1)
           | Inr url \<Rightarrow>
               refineSettled (refinePromptV2 en generationPrompt)
                 (refineBegin generationPrompt
                    (updateImageHistory en url (s1\<lparr>imageUrl := Some url\<rparr>))))"

text \<open>
  The same handler as a task that is resumed each time the promise it awaits settles,
  so that several runs can overlap: every piece of code between two \<open>await\<close>s runs to
  its end on the one thread, and a state setter called by a resumed run writes the
  cell of the component, whatever has run since the handler was called.
\<close>

datatype gen_task =
    AwaitGenerate jsstring
  | AwaitThumbnail jsstring
  | AwaitRefine jsstring
  | Finished

datatype settled =
    GenerateSettled "thrown + jsstring"
  | ThumbnailSettled "thrown + jsstring"
  | RefineSettled "thrown + RefinePromptV2Output"

definition generateStart :: "jsstring \<Rightarrow> state \<Rightarrow> gen_task \<times> state" where
  "generateStart generationPrompt s =
     (if trim generationPrompt = []
      then (Finished, s\<lparr>error := Some (lit ''Cannot generate image from an empty prompt.'')\<rparr>)
      else (AwaitGenerate generationPrompt, generateBegin generationPrompt s))"

fun generateResume :: "env \<Rightarrow> gen_task \<Rightarrow> settled \<Rightarrow> state \<Rightarrow> gen_task \<times> state" where
  "generateResume en (AwaitGenerate p) (GenerateSettled (Inl e)) s =
     (Finished, generateFinally (handleApiError e CtxGenerate s))"
| "generateResume en (AwaitGenerate p) (GenerateSettled (Inr url)) s =
     (AwaitThumbnail p, s\<lparr>imageUrl := Some url\<rparr>)"
| "generateResume en (AwaitThumbnail p) (ThumbnailSettled r) s =
     (AwaitRefine p, refineBegin p (thumbnailSettled en r s))"
| "generateResume en (AwaitRefine p) (RefineSettled r) s =
     (Finished, refineSettled r s)"
| "generateResume en t r s = (t, s)"

text \<open>
  A schedule is the order in which handler calls and settled promises reach the thread;
  each event names the run it belongs to.
\<close>

datatype event =
    Start nat jsstring
  | Settle nat settled

fun runEvent :: "env \<Rightarrow> event \<Rightarrow> (nat \<Rightarrow> gen_task) \<times> state \<Rightarrow> (nat \<Rightarrow> gen_task) \<times> state" where
  "runEvent en (Start i p) (tasks, s) =
     (let (t, s') = generateStart p s in (tasks(i := t), s'))"
| "runEvent en (Settle i r) (tasks, s) =
     (let (t, s') = generateResume en (tasks i) r s in (tasks(i := t), s'))"

definition runSchedule :: "env \<Rightarrow> event list \<Rightarrow> state \<Rightarrow> (nat \<Rightarrow> gen_task) \<times> state" where
  "runSchedule en evs s = foldl (\<lambda>c ev. runEvent en ev c) (\<lambda>i. Finished, s) evs"

subsection \<open>Edit, undo, reset, history selection\<close>

text \<open>The updater of line 255: the push onto the undo chain.\<close>

definition pushUndo :: "jsstring \<Rightarrow> jsstring list \<Rightarrow> jsstring list" where
  "pushUndo img prev = take MAX_UNDO_STEPS (img # prev)"

text \<open>
  The updater of the \<open>catch\<close> branch: the pop that rolls a failed edit back. An
  \<open>undefined\<close> or empty \<open>lastImage\<close> is falsy and leaves the image alone.
\<close>

definition rollbackEdit :: "state \<Rightarrow> state" where
  "rollbackEdit s =
     (case undoStack s of
        [] \<Rightarrow> s\<lparr>undoStack := []\<rparr>
      | lastImage # rest \<Rightarrow>
          (if lastImage \<noteq> [] then s\<lparr>imageUrl := Some lastImage\<rparr> else s)\<lparr>undoStack := rest\<rparr>)"

text \<open>\<open>editActionPrompt || editPrompt\<close>: an absent or empty argument yields the field.\<close>

definition finalEditPrompt :: "jsstring option \<Rightarrow> jsstring \<Rightarrow> jsstring" where
  "finalEditPrompt editActionPrompt fieldText =
     (case editActionPrompt of
        None \<Rightarrow> fieldText
      | Some a \<Rightarrow> if a \<noteq> [] then a else fieldText)"

definition handleEditImage :: "env \<Rightarrow> jsstring option \<Rightarrow> state \<Rightarrow> state" where
  "handleEditImage en editActionPrompt s =
     (let instruction = finalEditPrompt editActionPrompt (editPrompt s)
      in if trim instruction = []
         then s\<lparr>error := Some (lit ''Please enter a prompt to edit the image.'')\<rparr>
         else (case imageUrl s of
                 None \<Rightarrow>
                   s\<lparr>error := Some (lit ''No image to edit. Please generate or upload an image first.'')\<rparr>
               | Some img \<Rightarrow>
                   if img = []
                   then s\<lparr>error := Some (lit ''No image to edit. Please generate or upload an image first.'')\<rparr>
                   else
                     let s1 = s\<lparr>isLoading := True, activeLoader := Some LoaderEdit, error := None,
                                 suggestedEdits := None,
                                 undoStack := pushUndo img (undoStack s),
                                 calls := calls s @ [EditImageCall img instruction]\<rparr>;
                         s2 = (case editImage en img instruction of
                                 Inr edited \<Rightarrow>
                                   handleSuggestEdits en edited
                                     ((updateImageHistory en edited (s1\<lparr>imageUrl := Some edited\<rparr>))
                                        \<lparr>isUploadedImage := False, editPrompt := []\<rparr>)
                               | Inl e \<Rightarrow> rollbackEdit (handleApiError e CtxEdit s1))
                     in s2\<lparr>isLoading := False, activeLoader := None\<rparr>))"

definition handleUndo :: "state \<Rightarrow> state" where
  "handleUndo s =
     (case undoStack s of
        [] \<Rightarrow> s
      | lastImage # rest \<Rightarrow>
          addToast Plain (lit ''Undo Successful'') (lit ''Reverted to the previous image state.'')
            (s\<lparr>imageUrl := Some lastImage, undoStack := rest\<rparr>))"

definition handleReset :: "state \<Rightarrow> state" where
  "handleReset s =
     s\<lparr>prompt := [], editPrompt := [], imageUrl := None, undoStack := [], error := None,
       refinedPrompts := None, isUploadedImage := False, suggestedEdits := None\<rparr>"

text \<open>\<open>handleHistoryImageClick\<close> up to its \<open>await\<close>, then the whole handler.\<close>

definition historyImageSelected :: "jsstring \<Rightarrow> state \<Rightarrow> state" where
  "historyImageSelected histImageUrl s =
     addToast Plain (lit ''Image Loaded'')
       (lit ''Analyzing your image for creative suggestions...'')
       (s\<lparr>imageUrl := Some histImageUrl, undoStack := [], editPrompt := [], error := None,
          prompt := [], refinedPrompts := None, isUploadedImage := True,
          isHistorySheetOpen := False\<rparr>)"

definition handleHistoryImageClick :: "env \<Rightarrow> jsstring \<Rightarrow> state \<Rightarrow> state" where
  "handleHistoryImageClick en histImageUrl s =
     handleSuggestEdits en histImageUrl (historyImageSelected histImageUrl s)"

section \<open>Runs used in the statements\<close>

text \<open>
  A sequence of \<open>updateImageHistory\<close> calls, each with the surroundings it meets and
  the image it is given.
\<close>

definition recordAll :: "(env \<times> jsstring) list \<Rightarrow> state \<Rightarrow> state" where
  "recordAll rs s = foldl (\<lambda>st r. updateImageHistory (fst r) (snd r) st) s rs"

text \<open>
  Surroundings for the worked examples: the network is down, so every remote call is
  rejected; no image decodes; the storage can be read but is full, so nothing is ever
  written to it.
\<close>

definition offline :: env where
  "offline =
     \<lparr> generateImage = (\<lambda>p. Inl (ErrorObj (lit ''fetch failed''))),
       editImage = (\<lambda>i p. Inl (ErrorObj (lit ''fetch failed''))),
       refinePromptV2 = (\<lambda>p. Inl (ErrorObj (lit ''fetch failed''))),
       suggestEdits = (\<lambda>i. Inl (ErrorObj (lit ''fetch failed''))),
       loadImage = (\<lambda>u. None),
       getContext2d = True,
       toDataURL = (\<lambda>d m q. lit ''data:image/jpeg;base64,'' @ source d),
       getItemError = None,
       setItemError =
         (\<lambda>t. Some (DOMException (lit ''QuotaExceededError'') (lit ''The quota has been exceeded.''))),
       JSON_parse = (\<lambda>t. Inl (ErrorObj (lit ''Unexpected token''))),
       JSON_stringify = (\<lambda>j. lit ''[]'') \<rparr>"

section \<open>Undo chain\<close>

lemma take_append_take: "take n (ys @ take n zs) = take n (ys @ zs)"
  by (simp add: min_def)

lemma pushes_eq:
  assumes "length st \<le> 5"
  shows "foldl (\<lambda>st x. pushUndo x st) st xs = take 5 (rev xs @ st)"
  using assms
proof (induction xs arbitrary: st)
  case Nil
  then show ?case by simp
next
  case (Cons x xs)
  have "length (pushUndo x st) \<le> 5"
    by (simp add: pushUndo_def MAX_UNDO_STEPS_def)
  from Cons.IH[OF this]
  have "foldl (\<lambda>st x. pushUndo x st) (pushUndo x st) xs = take 5 (rev xs @ take 5 (x # st))"
    by (simp only: pushUndo_def MAX_UNDO_STEPS_def)
  also have "\<dots> = take 5 (rev xs @ x # st)"
    by (rule take_append_take)
  finally show ?case by simp
qed

lemma undo_pow_stack: "undoStack ((handleUndo ^^ k) s) = drop k (undoStack s)"
proof (induction k arbitrary: s)
  case 0
  show ?case by simp
next
  case (Suc k)
  show ?case
    apply (simp only: funpow_Suc_right o_apply)
    apply (subst Suc.IH)
    apply (cases "undoStack s")
     apply (simp_all add: handleUndo_def addToast_def)
    done
qed

lemma undo_pow_image:
  assumes k: "k < length (undoStack s)"
  shows "imageUrl ((handleUndo ^^ Suc k) s) = Some (undoStack s ! k)"
proof -
  let ?t = "(handleUndo ^^ k) s"
  have "undoStack ?t = drop k (undoStack s)"
    by (rule undo_pow_stack)
  with k obtain rest where "undoStack ?t = (undoStack s ! k) # rest"
    by (metis Cons_nth_drop_Suc)
  then have "imageUrl (handleUndo ?t) = Some (undoStack s ! k)"
    by (simp add: handleUndo_def addToast_def)
  then show ?thesis by simp
qed

lemma undo_exhausted:
  assumes "length (undoStack s) \<le> k"
  shows "(handleUndo ^^ Suc k) s = (handleUndo ^^ k) s"
proof -
  from assms have "undoStack ((handleUndo ^^ k) s) = []"
    by (simp add: undo_pow_stack)
  then have "handleUndo ((handleUndo ^^ k) s) = (handleUndo ^^ k) s"
    by (simp add: handleUndo_def)
  then show ?thesis by simp
qed

text \<open>
  C4. Whatever is pushed onto an empty undo chain, in any number, the chain holds at
  most 5 entries: the most recent pushes, latest first. Each \<open>handleUndo\<close> removes the
  head of the chain and makes it the current image, so the pops return the pushes in
  last-in-first-out order; once as many pops have run as the chain held entries, a
  further \<open>handleUndo\<close> changes nothing at all, the current image included.
\<close>

theorem undo_chain_lifo:
  assumes "undoStack s = foldl (\<lambda>st x. pushUndo x st) [] xs"
  shows "length (undoStack s) \<le> 5 \<and>
         undoStack s = take 5 (rev xs) \<and>
         (\<forall>k. undoStack ((handleUndo ^^ k) s) = drop k (take 5 (rev xs))) \<and>
         (\<forall>k < min 5 (length xs). imageUrl ((handleUndo ^^ Suc k) s) = Some (rev xs ! k)) \<and>
         (\<forall>k \<ge> min 5 (length xs). (handleUndo ^^ Suc k) s = (handleUndo ^^ k) s)"
proof -
  have chain: "undoStack s = take 5 (rev xs)"
    using assms by (simp add: pushes_eq)
  have len: "length (undoStack s) = min 5 (length xs)"
    by (simp add: chain min.commute)
  have pops: "imageUrl ((handleUndo ^^ Suc k) s) = Some (rev xs ! k)"
    if "k < min 5 (length xs)" for k
  proof -
    from that len have "k < length (undoStack s)" by simp
    from undo_pow_image[OF this]
    have "imageUrl ((handleUndo ^^ Suc k) s) = Some (take 5 (rev xs) ! k)"
      by (simp only: chain)
    with that show ?thesis by simp
  qed
  have exh: "(handleUndo ^^ Suc k) s = (handleUndo ^^ k) s"
    if "min 5 (length xs) \<le> k" for k
    using that len undo_exhausted[of s k] by simp
  from chain len pops exh show ?thesis
    by (simp add: undo_pow_stack)
qed

theorem undo_chain_lifo_witness:
  "undoStack ((initialState None)\<lparr>undoStack := [lit ''i7'', lit ''i6'', lit ''i5'', lit ''i4'', lit ''i3'']\<rparr>)
     = foldl (\<lambda>st x. pushUndo x st) []
         [lit ''i1'', lit ''i2'', lit ''i3'', lit ''i4'', lit ''i5'', lit ''i6'', lit ''i7''] \<and>
   imageUrl ((handleUndo ^^ Suc 1)
      ((initialState None)\<lparr>undoStack := [lit ''i7'', lit ''i6'', lit ''i5'', lit ''i4'', lit ''i3'']\<rparr>))
     = Some (lit ''i6'') \<and>
   (handleUndo ^^ Suc 5)
      ((initialState None)\<lparr>undoStack := [lit ''i7'', lit ''i6'', lit ''i5'', lit ''i4'', lit ''i3'']\<rparr>)
     = (handleUndo ^^ 5)
      ((initialState None)\<lparr>undoStack := [lit ''i7'', lit ''i6'', lit ''i5'', lit ''i4'', lit ''i3'']\<rparr>)"
proof -
  let ?s = "(initialState None)\<lparr>undoStack := [lit ''i7'', lit ''i6'', lit ''i5'', lit ''i4'', lit ''i3'']\<rparr>"
  let ?xs = "[lit ''i1'', lit ''i2'', lit ''i3'', lit ''i4'', lit ''i5'', lit ''i6'', lit ''i7'']"
  have h: "undoStack ?s = foldl (\<lambda>st x. pushUndo x st) [] ?xs"
    by (simp add: pushUndo_def MAX_UNDO_STEPS_def)
  note T = undo_chain_lifo[OF h]
  from T have a: "\<forall>k < min 5 (length ?xs). imageUrl ((handleUndo ^^ Suc k) ?s) = Some (rev ?xs ! k)"
    by blast
  from T have b: "\<forall>k \<ge> min 5 (length ?xs). (handleUndo ^^ Suc k) ?s = (handleUndo ^^ k) ?s"
    by blast
  have "imageUrl ((handleUndo ^^ Suc 1) ?s) = Some (rev ?xs ! 1)"
    by (rule a[rule_format]) simp
  moreover have "(handleUndo ^^ Suc 5) ?s = (handleUndo ^^ 5) ?s"
    by (rule b[rule_format]) simp
  ultimately show ?thesis using h by simp
qed

section \<open>Reset\<close>

text \<open>
  C8. In every state, \<open>handleReset\<close> empties the prompt and the edit prompt, removes the
  current image, empties the undo chain, and clears the error and both suggestion sets;
  the history list and the contents of the storage slot are what they were.
\<close>

theorem reset_frame:
  "prompt (handleReset s) = [] \<and> editPrompt (handleReset s) = [] \<and>
   imageUrl (handleReset s) = None \<and> undoStack (handleReset s) = [] \<and>
   error (handleReset s) = None \<and> refinedPrompts (handleReset s) = None \<and>
   suggestedEdits (handleReset s) = None \<and>
   imageHistory (handleReset s) = imageHistory s \<and>
   localStorage (handleReset s) = localStorage s"
  by (simp add: handleReset_def)

section \<open>Validation\<close>

lemma trim_empty_iff: "trim s = [] \<longleftrightarrow> (\<forall>c \<in> set s. isWhiteSpace c)"
proof
  assume "trim s = []"
  then have "dropWhile isWhiteSpace (rev (dropWhile isWhiteSpace s)) = []"
    unfolding trim_def by (simp only: rev_is_Nil_conv)
  then have inner: "\<forall>c \<in> set (dropWhile isWhiteSpace s). isWhiteSpace c"
    by (simp only: dropWhile_eq_Nil_conv set_rev)
  have "dropWhile isWhiteSpace s = []"
  proof (rule ccontr)
    assume ne: "dropWhile isWhiteSpace s \<noteq> []"
    then have "\<not> isWhiteSpace (hd (dropWhile isWhiteSpace s))"
      by (rule hd_dropWhile)
    moreover from ne have "hd (dropWhile isWhiteSpace s) \<in> set (dropWhile isWhiteSpace s)"
      by (rule hd_in_set)
    ultimately show False using inner by blast
  qed
  then show "\<forall>c \<in> set s. isWhiteSpace c"
    by (simp only: dropWhile_eq_Nil_conv)
next
  assume "\<forall>c \<in> set s. isWhiteSpace c"
  then have "dropWhile isWhiteSpace s = []"
    by (simp only: dropWhile_eq_Nil_conv)
  then show "trim s = []"
    unfolding trim_def by (simp del: dropWhile_eq_Nil_conv)
qed

text \<open>
  C6. A prompt made of whitespace only (the empty prompt included) makes
  \<open>handleGenerateImage\<close> set the validation error and do nothing else: no remote call is
  issued. The instruction of an edit is the argument when it is given and not empty, the
  edit-prompt field otherwise; when it is made of whitespace only, \<open>handleEditImage\<close> sets
  its validation error and does nothing else, whatever the current image. With no current
  image, \<open>handleEditImage\<close> only sets an error and issues no remote call.
\<close>

theorem validation_fail_fast:
  "((\<forall>c \<in> set p. isWhiteSpace c) \<longrightarrow>
      handleGenerateImage en p s =
        s\<lparr>error := Some (lit ''Cannot generate image from an empty prompt.'')\<rparr> \<and>
      calls (handleGenerateImage en p s) = calls s) \<and>
   ((\<forall>c \<in> set (finalEditPrompt a (editPrompt s)). isWhiteSpace c) \<longrightarrow>
      handleEditImage en a s =
        s\<lparr>error := Some (lit ''Please enter a prompt to edit the image.'')\<rparr> \<and>
      calls (handleEditImage en a s) = calls s) \<and>
   (imageUrl s = None \<longrightarrow>
      (\<exists>msg. handleEditImage en a s = s\<lparr>error := Some msg\<rparr>) \<and>
      calls (handleEditImage en a s) = calls s)"
proof (intro conjI impI)
  assume "\<forall>c \<in> set p. isWhiteSpace c"
  then have "trim p = []" by (simp add: trim_empty_iff)
  then show "handleGenerateImage en p s =
        s\<lparr>error := Some (lit ''Cannot generate image from an empty prompt.'')\<rparr>"
    and "calls (handleGenerateImage en p s) = calls s"
    by (simp_all add: handleGenerateImage_def)
next
  assume "\<forall>c \<in> set (finalEditPrompt a (editPrompt s)). isWhiteSpace c"
  then have "trim (finalEditPrompt a (editPrompt s)) = []" by (simp add: trim_empty_iff)
  then show "handleEditImage en a s =
        s\<lparr>error := Some (lit ''Please enter a prompt to edit the image.'')\<rparr>"
    and "calls (handleEditImage en a s) = calls s"
    by (simp_all add: handleEditImage_def)
next
  assume n: "imageUrl s = None"
  show "\<exists>msg. handleEditImage en a s = s\<lparr>error := Some msg\<rparr>"
    using n by (cases "trim (finalEditPrompt a (editPrompt s)) = []") (auto simp add: handleEditImage_def)
  show "calls (handleEditImage en a s) = calls s"
    using n by (cases "trim (finalEditPrompt a (editPrompt s)) = []") (simp_all add: handleEditImage_def)
qed

theorem validation_fail_fast_witness:
  "handleGenerateImage offline [0x20, 0x20, 0x20] (initialState None) =
     (initialState None)\<lparr>error := Some (lit ''Cannot generate image from an empty prompt.'')\<rparr> \<and>
   calls (handleGenerateImage offline [0x20, 0x20, 0x20] (initialState None)) = [] \<and>
   handleEditImage offline (Some [0x20, 0x09, 0x3000])
       ((initialState None)\<lparr>imageUrl := Some (lit ''data:A''), editPrompt := lit ''make the sky red''\<rparr>) =
     (initialState None)\<lparr>imageUrl := Some (lit ''data:A''), editPrompt := lit ''make the sky red'',
        error := Some (lit ''Please enter a prompt to edit the image.'')\<rparr> \<and>
   calls (handleEditImage offline (Some (lit ''make the sky red'')) (initialState None)) = []"
proof -
  let ?s = "(initialState None)\<lparr>imageUrl := Some (lit ''data:A''), editPrompt := lit ''make the sky red''\<rparr>"
  have g: "\<forall>c \<in> set ([0x20, 0x20, 0x20] :: jsstring). isWhiteSpace c"
    by (simp add: isWhiteSpace_def)
  have e: "\<forall>c \<in> set (finalEditPrompt (Some [0x20, 0x09, 0x3000]) (editPrompt ?s)). isWhiteSpace c"
    by (simp add: finalEditPrompt_def isWhiteSpace_def)
  have n: "imageUrl (initialState None) = None"
    by (simp add: initialState_def)
  from validation_fail_fast[where p = "[0x20, 0x20, 0x20]" and en = offline and s = "initialState None"
      and a = "Some (lit ''make the sky red'')"] g n
  have one: "handleGenerateImage offline [0x20, 0x20, 0x20] (initialState None) =
       (initialState None)\<lparr>error := Some (lit ''Cannot generate image from an empty prompt.'')\<rparr>"
    and two: "calls (handleGenerateImage offline [0x20, 0x20, 0x20] (initialState None)) = calls (initialState None)"
    and four: "calls (handleEditImage offline (Some (lit ''make the sky red'')) (initialState None)) = calls (initialState None)"
    by blast+
  from validation_fail_fast[where p = "[]" and en = offline and s = ?s
      and a = "Some [0x20, 0x09, 0x3000]"] e
  have three: "handleEditImage offline (Some [0x20, 0x09, 0x3000]) ?s =
       ?s\<lparr>error := Some (lit ''Please enter a prompt to edit the image.'')\<rparr>"
    by blast
  have c0: "calls (initialState None) = []"
    by (simp add: initialState_def)
  from one two three four c0 show ?thesis by simp
qed

section \<open>Rollback of a failed edit\<close>

lemma handleApiError_frame:
  "imageUrl (handleApiError e c s) = imageUrl s \<and> undoStack (handleApiError e c s) = undoStack s"
  by (simp add: handleApiError_def addToast_def split: option.splits prod.splits)

lemma trim_red: "trim (lit ''make the sky red'') \<noteq> []"
  by (simp add: trim_empty_iff lit_def isWhiteSpace_def)

text \<open>
  An edit that succeeds leaves the image it replaced on top of the undo chain, so five
  successful edits in a row fill the chain to its capacity.
\<close>

lemma edit_success_pushes:
  assumes "trim (finalEditPrompt a (editPrompt s)) \<noteq> []"
    and "imageUrl s = Some A" "A \<noteq> []"
    and "editImage en A (finalEditPrompt a (editPrompt s)) = Inr B"
  shows "imageUrl (handleEditImage en a s) = Some B \<and>
         undoStack (handleEditImage en a s) = pushUndo A (undoStack s)"
  using assms
  by (simp add: handleEditImage_def Let_def handleSuggestEdits_def handleApiError_frame
      updateImageHistory_def thumbnailSettled_def saveHistoryEffect_def addToast_def
      split: sum.splits option.splits)

text \<open>
  C1, as the code has it. When the instruction is valid, the current image is \<open>A\<close> and
  the remote edit call is rejected, then after the rollback the current image is \<open>A\<close>
  again and the undo chain is the starting chain cut to its first 4 entries. So a chain
  of at most 4 entries is restored as it was, and a chain at the capacity of 5 comes back
  with 4: the bounded push dropped its oldest entry before the call.
\<close>

theorem edit_failure_rollback:
  assumes inst: "trim (finalEditPrompt a (editPrompt s)) \<noteq> []"
    and img: "imageUrl s = Some A" "A \<noteq> []"
    and fail: "editImage en A (finalEditPrompt a (editPrompt s)) = Inl e"
  shows "imageUrl (handleEditImage en a s) = Some A \<and>
         undoStack (handleEditImage en a s) = take 4 (undoStack s) \<and>
         length (undoStack (handleEditImage en a s)) = min 4 (length (undoStack s))"
proof -
  let ?s1 = "s\<lparr>isLoading := True, activeLoader := Some LoaderEdit, error := None,
                suggestedEdits := None, undoStack := pushUndo A (undoStack s),
                calls := calls s @ [EditImageCall A (finalEditPrompt a (editPrompt s))]\<rparr>"
  let ?s2 = "handleApiError e CtxEdit ?s1"
  have run: "handleEditImage en a s = (rollbackEdit ?s2)\<lparr>isLoading := False, activeLoader := None\<rparr>"
    using inst img fail by (simp add: handleEditImage_def Let_def)
  have stack: "undoStack ?s2 = A # take 4 (undoStack s)"
    by (simp add: handleApiError_frame pushUndo_def MAX_UNDO_STEPS_def)
  have "imageUrl (rollbackEdit ?s2) = Some A \<and> undoStack (rollbackEdit ?s2) = take 4 (undoStack s)"
    using img(2) by (simp add: rollbackEdit_def stack)
  with run show ?thesis by (simp add: min.commute)
qed

theorem edit_failure_rollback_witness:
  "trim (finalEditPrompt (Some (lit ''make the sky red''))
      (editPrompt ((initialState None)\<lparr>imageUrl := Some (lit ''data:A''), undoStack := [lit ''data:u2'', lit ''data:u1'']\<rparr>))) \<noteq> [] \<and>
   editImage offline (lit ''data:A'') (lit ''make the sky red'') = Inl (ErrorObj (lit ''fetch failed'')) \<and>
   imageUrl (handleEditImage offline (Some (lit ''make the sky red''))
      ((initialState None)\<lparr>imageUrl := Some (lit ''data:A''), undoStack := [lit ''data:u2'', lit ''data:u1'']\<rparr>))
     = Some (lit ''data:A'') \<and>
   undoStack (handleEditImage offline (Some (lit ''make the sky red''))
      ((initialState None)\<lparr>imageUrl := Some (lit ''data:A''), undoStack := [lit ''data:u2'', lit ''data:u1'']\<rparr>))
     = [lit ''data:u2'', lit ''data:u1'']"
proof -
  let ?s = "(initialState None)\<lparr>imageUrl := Some (lit ''data:A''), undoStack := [lit ''data:u2'', lit ''data:u1'']\<rparr>"
  let ?a = "Some (lit ''make the sky red'')"
  have fp: "finalEditPrompt ?a (editPrompt ?s) = lit ''make the sky red''"
    by (simp add: finalEditPrompt_def lit_def)
  have h1: "trim (finalEditPrompt ?a (editPrompt ?s)) \<noteq> []"
    by (simp only: fp trim_red not_False_eq_True)
  have h2: "imageUrl ?s = Some (lit ''data:A'')" by simp
  have h3: "lit ''data:A'' \<noteq> []" by (simp add: lit_def)
  have h4: "editImage offline (lit ''data:A'') (finalEditPrompt ?a (editPrompt ?s)) = Inl (ErrorObj (lit ''fetch failed''))"
    by (simp add: offline_def)
  from edit_failure_rollback[OF h1 h2 h3 h4] h1 h4 fp show ?thesis
    by simp
qed

text \<open>
  The claim as stated fails on a chain at capacity: the chain held 5 entries before the
  push and holds 4 after the rollback.
\<close>

theorem edit_rollback_at_capacity_counterexample:
  "imageUrl ((initialState None)\<lparr>imageUrl := Some (lit ''data:A''),
      undoStack := [lit ''data:u5'', lit ''data:u4'', lit ''data:u3'', lit ''data:u2'', lit ''data:u1'']\<rparr>)
     = Some (lit ''data:A'') \<and>
   editImage offline (lit ''data:A'') (lit ''make the sky red'') = Inl (ErrorObj (lit ''fetch failed'')) \<and>
   length (undoStack ((initialState None)\<lparr>imageUrl := Some (lit ''data:A''),
      undoStack := [lit ''data:u5'', lit ''data:u4'', lit ''data:u3'', lit ''data:u2'', lit ''data:u1'']\<rparr>)) = 5 \<and>
   undoStack (handleEditImage offline (Some (lit ''make the sky red''))
      ((initialState None)\<lparr>imageUrl := Some (lit ''data:A''),
         undoStack := [lit ''data:u5'', lit ''data:u4'', lit ''data:u3'', lit ''data:u2'', lit ''data:u1'']\<rparr>))
     = [lit ''data:u5'', lit ''data:u4'', lit ''data:u3'', lit ''data:u2''] \<and>
   length (undoStack (handleEditImage offline (Some (lit ''make the sky red''))
      ((initialState None)\<lparr>imageUrl := Some (lit ''data:A''),
         undoStack := [lit ''data:u5'', lit ''data:u4'', lit ''data:u3'', lit ''data:u2'', lit ''data:u1'']\<rparr>)))
     \<noteq> length (undoStack ((initialState None)\<lparr>imageUrl := Some (lit ''data:A''),
      undoStack := [lit ''data:u5'', lit ''data:u4'', lit ''data:u3'', lit ''data:u2'', lit ''data:u1'']\<rparr>))"
proof -
  let ?s = "(initialState None)\<lparr>imageUrl := Some (lit ''data:A''),
      undoStack := [lit ''data:u5'', lit ''data:u4'', lit ''data:u3'', lit ''data:u2'', lit ''data:u1'']\<rparr>"
  have t: "trim (lit ''make the sky red'') \<noteq> []" by (rule trim_red)
  have n: "lit ''make the sky red'' \<noteq> []" "lit ''data:A'' \<noteq> []" by (simp_all add: lit_def)
  have "undoStack (handleEditImage offline (Some (lit ''make the sky red'')) ?s)
     = [lit ''data:u5'', lit ''data:u4'', lit ''data:u3'', lit ''data:u2'']"
    using t n
    by (simp add: handleEditImage_def finalEditPrompt_def initialState_def offline_def
        handleApiError_def apiErrorReport_def addToast_def rollbackEdit_def pushUndo_def
        MAX_UNDO_STEPS_def Let_def split: option.splits prod.splits)
  then show ?thesis by (simp add: offline_def)
qed

section \<open>History invariant\<close>

lemma recordThumbnail_length: "length (recordThumbnail t h) \<le> 5"
  by (simp add: recordThumbnail_def MAX_HISTORY_LENGTH_def)

lemma recordThumbnail_distinct:
  assumes "distinct h"
  shows "distinct (recordThumbnail t h)"
proof -
  have "JString t \<notin> set (filter (\<lambda>url. url \<noteq> JString t) h)"
    by simp
  with assms have "distinct (JString t # filter (\<lambda>url. url \<noteq> JString t) h)"
    by simp
  then show ?thesis
    unfolding recordThumbnail_def Let_def by (rule distinct_take)
qed

lemma recordThumbnail_hd: "recordThumbnail t h \<noteq> [] \<and> hd (recordThumbnail t h) = JString t"
  by (simp add: recordThumbnail_def Let_def MAX_HISTORY_LENGTH_def)

lemma saveHistoryEffect_history: "imageHistory (saveHistoryEffect en s) = imageHistory s"
  by (simp add: saveHistoryEffect_def addToast_def Let_def split: option.splits)

lemma updateImageHistory_history:
  "imageHistory (updateImageHistory en u s) =
     (case createThumbnailDataUri en u 400 of
        Inr t \<Rightarrow> recordThumbnail t (imageHistory s)
      | Inl e \<Rightarrow> imageHistory s)"
  by (simp add: updateImageHistory_def thumbnailSettled_def saveHistoryEffect_history addToast_def
      split: sum.splits)

lemma recordAll_snoc: "recordAll (rs @ [r]) s = updateImageHistory (fst r) (snd r) (recordAll rs s)"
  by (simp add: recordAll_def)

lemma recordAll_append: "recordAll (rs1 @ rs2) s = recordAll rs2 (recordAll rs1 s)"
  by (simp add: recordAll_def)

lemma recordAll_Cons: "recordAll (r # rs) s = recordAll rs (updateImageHistory (fst r) (snd r) s)"
  by (simp add: recordAll_def)

lemma recordAll_invariant:
  assumes "distinct (imageHistory s)" "length (imageHistory s) \<le> 5"
  shows "distinct (imageHistory (recordAll rs s)) \<and> length (imageHistory (recordAll rs s)) \<le> 5"
proof (induction rs rule: rev_induct)
  case Nil
  from assms show ?case by (simp add: recordAll_def)
next
  case (snoc r rs)
  then show ?case
    by (simp add: recordAll_snoc updateImageHistory_history recordThumbnail_length
        recordThumbnail_distinct split: sum.splits)
qed

lemma recordAll_failures:
  assumes "\<forall>r \<in> set rs. isl (createThumbnailDataUri (fst r) (snd r) 400)"
  shows "imageHistory (recordAll rs s) = imageHistory s"
  using assms
proof (induction rs rule: rev_induct)
  case Nil
  show ?case by (simp add: recordAll_def)
next
  case (snoc r rs)
  then show ?case
    by (auto simp add: recordAll_snoc updateImageHistory_history split: sum.splits)
qed

lemma thumbnail_small_example:
  "createThumbnailDataUri (offline\<lparr>loadImage := (\<lambda>u. Some (300, 200))\<rparr>) u 400 =
     Inr (lit ''data:image/jpeg;base64,'' @ u)"
  by (simp add: createThumbnailDataUri_def offline_def thumbnailDrawing_def scaledSize_def)

lemma thumbnail_offline_example: "createThumbnailDataUri offline u 400 = Inl NonError"
  by (simp add: createThumbnailDataUri_def offline_def)

text \<open>
  C3. Start from a history list without duplicates and of at most 5 entries (the empty
  list of a fresh component is one). After any sequence of \<open>updateImageHistory\<close> calls the
  list has at most 5 entries and no two equal ones, and its first entry is the thumbnail
  of the latest call whose thumbnail was produced (a call whose thumbnail fails leaves the
  list as it is).
\<close>

theorem history_record_invariant:
  assumes "distinct (imageHistory s)" "length (imageHistory s) \<le> 5"
  shows "length (imageHistory (recordAll rs s)) \<le> 5 \<and>
         distinct (imageHistory (recordAll rs s)) \<and>
         (\<forall>rs1 en url t rs2.
            rs = rs1 @ (en, url) # rs2 \<and> createThumbnailDataUri en url 400 = Inr t \<and>
            (\<forall>r \<in> set rs2. isl (createThumbnailDataUri (fst r) (snd r) 400)) \<longrightarrow>
            imageHistory (recordAll rs s) \<noteq> [] \<and>
            hd (imageHistory (recordAll rs s)) = JString t)"
proof -
  have first: "imageHistory (recordAll rs s) \<noteq> [] \<and> hd (imageHistory (recordAll rs s)) = JString t"
    if split: "rs = rs1 @ (en, url) # rs2"
      and ok: "createThumbnailDataUri en url 400 = Inr t"
      and later: "\<forall>r \<in> set rs2. isl (createThumbnailDataUri (fst r) (snd r) 400)"
    for rs1 en url t rs2
  proof -
    let ?m = "updateImageHistory en url (recordAll rs1 s)"
    have "recordAll rs s = recordAll rs2 ?m"
      by (simp add: split recordAll_append recordAll_Cons)
    then have "imageHistory (recordAll rs s) = imageHistory ?m"
      using later by (simp add: recordAll_failures)
    also have "\<dots> = recordThumbnail t (imageHistory (recordAll rs1 s))"
      by (simp add: updateImageHistory_history ok)
    finally show ?thesis by (simp add: recordThumbnail_hd)
  qed
  from recordAll_invariant[OF assms] first show ?thesis by blast
qed

theorem history_record_invariant_witness:
  "distinct (imageHistory (initialState None)) \<and>
   length (imageHistory (initialState None)) \<le> 5 \<and>
   length (imageHistory (recordAll
      [(offline\<lparr>loadImage := (\<lambda>u. Some (300, 200))\<rparr>, lit ''data:I1''),
       (offline\<lparr>loadImage := (\<lambda>u. Some (300, 200))\<rparr>, lit ''data:I2''),
       (offline, lit ''data:I3'')] (initialState None))) \<le> 5 \<and>
   distinct (imageHistory (recordAll
      [(offline\<lparr>loadImage := (\<lambda>u. Some (300, 200))\<rparr>, lit ''data:I1''),
       (offline\<lparr>loadImage := (\<lambda>u. Some (300, 200))\<rparr>, lit ''data:I2''),
       (offline, lit ''data:I3'')] (initialState None))) \<and>
   hd (imageHistory (recordAll
      [(offline\<lparr>loadImage := (\<lambda>u. Some (300, 200))\<rparr>, lit ''data:I1''),
       (offline\<lparr>loadImage := (\<lambda>u. Some (300, 200))\<rparr>, lit ''data:I2''),
       (offline, lit ''data:I3'')] (initialState None)))
     = JString (lit ''data:image/jpeg;base64,'' @ lit ''data:I2'')"
proof -
  let ?cam = "offline\<lparr>loadImage := (\<lambda>u. Some (300, 200))\<rparr>"
  let ?rs = "[(?cam, lit ''data:I1''), (?cam, lit ''data:I2''), (offline, lit ''data:I3'')]"
  have d: "distinct (imageHistory (initialState None))"
    and l: "length (imageHistory (initialState None)) \<le> 5"
    by (simp_all add: initialState_def)
  note T = history_record_invariant[OF d l, of ?rs]
  have split: "?rs = [(?cam, lit ''data:I1'')] @ (?cam, lit ''data:I2'') # [(offline, lit ''data:I3'')]"
    by simp
  have ok: "createThumbnailDataUri ?cam (lit ''data:I2'') 400 = Inr (lit ''data:image/jpeg;base64,'' @ lit ''data:I2'')"
    by (rule thumbnail_small_example)
  have later: "\<forall>r \<in> set [(offline, lit ''data:I3'')]. isl (createThumbnailDataUri (fst r) (snd r) 400)"
    by (simp add: thumbnail_offline_example)
  from T split ok later
  have "hd (imageHistory (recordAll ?rs (initialState None))) = JString (lit ''data:image/jpeg;base64,'' @ lit ''data:I2'')"
    by blast
  with T d l show ?thesis by blast
qed

section \<open>Loading the history\<close>

text \<open>
  C7, as the code has it. On a fresh component whose storage can be read: when the slot
  is absent (or holds the empty string) the history stays empty and nothing is reported;
  when the stored text fails to parse the history stays empty and the
  \<open>History Load Failed\<close> toast is shown; when it parses to something that is no array the
  history stays empty and nothing is reported.
\<close>

theorem load_on_start:
  "getItemError en = None \<longrightarrow>
     imageHistory (initialState slot) = [] \<and>
     (slot = None \<or> slot = Some [] \<longrightarrow>
        loadHistoryEffect en (initialState slot) = initialState slot) \<and>
     (\<forall>t e. slot = Some t \<and> t \<noteq> [] \<and> JSON_parse en t = Inl e \<longrightarrow>
        loadHistoryEffect en (initialState slot) =
          addToast Destructive (lit ''History Load Failed'')
            (lit ''Could not load your image history.'') (initialState slot) \<and>
        imageHistory (loadHistoryEffect en (initialState slot)) = []) \<and>
     (\<forall>t j. slot = Some t \<and> t \<noteq> [] \<and> JSON_parse en t = Inr j \<and> (\<forall>xs. j \<noteq> JArray xs) \<longrightarrow>
        loadHistoryEffect en (initialState slot) = initialState slot)"
proof (intro impI conjI allI)
  show "imageHistory (initialState slot) = []" by (simp add: initialState_def)
next
  assume "getItemError en = None" "slot = None \<or> slot = Some []"
  then show "loadHistoryEffect en (initialState slot) = initialState slot"
    by (auto simp add: loadHistoryEffect_def initialState_def)
next
  fix t e
  assume a: "getItemError en = None" "slot = Some t \<and> t \<noteq> [] \<and> JSON_parse en t = Inl e"
  then show "loadHistoryEffect en (initialState slot) =
          addToast Destructive (lit ''History Load Failed'')
            (lit ''Could not load your image history.'') (initialState slot)"
    by (simp add: loadHistoryEffect_def initialState_def)
  then show "imageHistory (loadHistoryEffect en (initialState slot)) = []"
    by (simp add: addToast_def initialState_def)
next
  fix t j
  assume a: "getItemError en = None"
    "slot = Some t \<and> t \<noteq> [] \<and> JSON_parse en t = Inr j \<and> (\<forall>xs. j \<noteq> JArray xs)"
  then show "loadHistoryEffect en (initialState slot) = initialState slot"
    by (cases j) (simp_all add: loadHistoryEffect_def initialState_def)
qed

theorem load_on_start_witness:
  \<open>getItemError offline = None \<and>
   loadHistoryEffect offline (initialState None) = initialState None \<and>
   JSON_parse offline (lit ''["data:image/jpeg;base64,AAAA'') = Inl (ErrorObj (lit ''Unexpected token'')) \<and>
   loadHistoryEffect offline (initialState (Some (lit ''["data:image/jpeg;base64,AAAA''))) =
     addToast Destructive (lit ''History Load Failed'') (lit ''Could not load your image history.'')
       (initialState (Some (lit ''["data:image/jpeg;base64,AAAA''))) \<and>
   imageHistory (loadHistoryEffect offline (initialState (Some (lit ''["data:image/jpeg;base64,AAAA'')))) = []\<close>
proof -
  let ?t = \<open>lit ''["data:image/jpeg;base64,AAAA''\<close>
  have g: "getItemError offline = None" by (simp add: offline_def)
  have p: "JSON_parse offline ?t = Inl (ErrorObj (lit ''Unexpected token''))"
    by (simp add: offline_def)
  have ne: "?t \<noteq> []" by (simp add: lit_def)
  from load_on_start[of offline None] g
  have a: "loadHistoryEffect offline (initialState None) = initialState None"
    by blast
  from load_on_start[of offline "Some ?t"] g p ne
  have b: "loadHistoryEffect offline (initialState (Some ?t)) =
     addToast Destructive (lit ''History Load Failed'') (lit ''Could not load your image history.'')
       (initialState (Some ?t)) \<and>
     imageHistory (loadHistoryEffect offline (initialState (Some ?t))) = []"
    by blast
  from g p a b show ?thesis by blast
qed

text \<open>
  The claim as stated fails for the absent slot: the history starts empty, but no load
  error is reported.
\<close>

theorem load_absent_counterexample:
  "getItemError offline = None \<and> localStorage (initialState None) = None \<and>
   imageHistory (loadHistoryEffect offline (initialState None)) = [] \<and>
   toasts (loadHistoryEffect offline (initialState None)) = []"
  by (simp add: loadHistoryEffect_def initialState_def offline_def)

text \<open>
  C9, as the code has it. When the slot holds a non-empty text that parses to an array,
  the history becomes exactly that array: nothing is cut, removed or checked. The next
  \<open>updateImageHistory\<close> whose thumbnail is produced puts the thumbnail first, removes the
  entries equal to it and keeps the first 5, so the length bound holds from then on; the
  result is free of duplicates only if the loaded entries it keeps were.
\<close>

theorem load_installs_array_unchecked:
  assumes "getItemError en = None" "localStorage s = Some t" "t \<noteq> []"
    and "JSON_parse en t = Inr (JArray xs)"
  shows "imageHistory (loadHistoryEffect en s) = xs \<and>
         (\<forall>s' en' u th.
            imageHistory s' = imageHistory (loadHistoryEffect en s) \<and>
            createThumbnailDataUri en' u 400 = Inr th \<longrightarrow>
            imageHistory (updateImageHistory en' u s') =
              take 5 (JString th # filter (\<lambda>x. x \<noteq> JString th) xs) \<and>
            length (imageHistory (updateImageHistory en' u s')) \<le> 5 \<and>
            (distinct (imageHistory (updateImageHistory en' u s')) \<longleftrightarrow>
               distinct (take 4 (filter (\<lambda>x. x \<noteq> JString th) xs))))"
proof -
  have load: "imageHistory (loadHistoryEffect en s) = xs"
    using assms by (simp add: loadHistoryEffect_def)
  have rec: "imageHistory (updateImageHistory en' u s') =
              take 5 (JString th # filter (\<lambda>x. x \<noteq> JString th) xs)"
    if "imageHistory s' = xs" "createThumbnailDataUri en' u 400 = Inr th" for s' en' u th
    using that by (simp add: updateImageHistory_history recordThumbnail_def MAX_HISTORY_LENGTH_def)
  have notin: "JString th \<notin> set (take 4 (filter (\<lambda>x. x \<noteq> JString th) xs))" for th
    using in_set_takeD by fastforce
  show ?thesis
    apply (intro conjI allI impI)
       apply (rule load)
      apply (simp add: rec load)
     apply (simp add: rec load)
    apply (simp add: rec load notin)
    done
qed

theorem load_installs_array_unchecked_witness:
  \<open>getItemError (offline\<lparr>JSON_parse := (\<lambda>t. Inr (JArray [JNumber 1, JNull, JString (lit ''x''),
        JString (lit ''x''), JBool True, JArray [], JNumber 7]))\<rparr>) = None \<and>
   localStorage (initialState (Some (lit ''[1,null,"x","x",true,[],7]''))) =
     Some (lit ''[1,null,"x","x",true,[],7]'') \<and>
   imageHistory (loadHistoryEffect
     (offline\<lparr>JSON_parse := (\<lambda>t. Inr (JArray [JNumber 1, JNull, JString (lit ''x''),
        JString (lit ''x''), JBool True, JArray [], JNumber 7]))\<rparr>)
     (initialState (Some (lit ''[1,null,"x","x",true,[],7]'')))) =
     [JNumber 1, JNull, JString (lit ''x''), JString (lit ''x''), JBool True, JArray [], JNumber 7]\<close>
proof -
  let ?xs = "[JNumber 1, JNull, JString (lit ''x''), JString (lit ''x''), JBool True, JArray [], JNumber 7]"
  let ?en = "offline\<lparr>JSON_parse := (\<lambda>t. Inr (JArray ?xs))\<rparr>"
  let ?t = \<open>lit ''[1,null,"x","x",true,[],7]''\<close>
  have h1: "getItemError ?en = None" by (simp add: offline_def)
  have h2: "localStorage (initialState (Some ?t)) = Some ?t" by (simp add: initialState_def)
  have h3: "?t \<noteq> []" by (simp add: lit_def)
  have h4: "JSON_parse ?en ?t = Inr (JArray ?xs)" by simp
  from load_installs_array_unchecked[OF h1 h2 h3 h4] h1 h2 show ?thesis by blast
qed

text \<open>
  The claim as stated fails where it says that the invariant holds once \<open>record\<close> has
  been called: two equal loaded entries are both still there after the next record.
\<close>

theorem load_duplicates_survive_record_counterexample:
  \<open>imageHistory (loadHistoryEffect
     (offline\<lparr>JSON_parse := (\<lambda>t. Inr (JArray [JString (lit ''data:image/jpeg;base64,AAAA''),
        JString (lit ''data:image/jpeg;base64,AAAA'')]))\<rparr>)
     (initialState (Some (lit ''["data:image/jpeg;base64,AAAA","data:image/jpeg;base64,AAAA"]'')))) =
     [JString (lit ''data:image/jpeg;base64,AAAA''), JString (lit ''data:image/jpeg;base64,AAAA'')] \<and>
   imageHistory (updateImageHistory (offline\<lparr>loadImage := (\<lambda>u. Some (300, 200))\<rparr>) (lit ''data:image/png;base64,BBBB'')
     (loadHistoryEffect
       (offline\<lparr>JSON_parse := (\<lambda>t. Inr (JArray [JString (lit ''data:image/jpeg;base64,AAAA''),
          JString (lit ''data:image/jpeg;base64,AAAA'')]))\<rparr>)
       (initialState (Some (lit ''["data:image/jpeg;base64,AAAA","data:image/jpeg;base64,AAAA"]''))))) =
     [JString (lit ''data:image/jpeg;base64,'' @ lit ''data:image/png;base64,BBBB''),
      JString (lit ''data:image/jpeg;base64,AAAA''), JString (lit ''data:image/jpeg;base64,AAAA'')] \<and>
   \<not> distinct (imageHistory (updateImageHistory (offline\<lparr>loadImage := (\<lambda>u. Some (300, 200))\<rparr>) (lit ''data:image/png;base64,BBBB'')
     (loadHistoryEffect
       (offline\<lparr>JSON_parse := (\<lambda>t. Inr (JArray [JString (lit ''data:image/jpeg;base64,AAAA''),
          JString (lit ''data:image/jpeg;base64,AAAA'')]))\<rparr>)
       (initialState (Some (lit ''["data:image/jpeg;base64,AAAA","data:image/jpeg;base64,AAAA"]''))))))\<close>
proof -
  let ?a = "JString (lit ''data:image/jpeg;base64,AAAA'')"
  let ?en = "offline\<lparr>JSON_parse := (\<lambda>t. Inr (JArray [?a, ?a]))\<rparr>"
  let ?t = \<open>lit ''["data:image/jpeg;base64,AAAA","data:image/jpeg;base64,AAAA"]''\<close>
  let ?cam = "offline\<lparr>loadImage := (\<lambda>u. Some (300, 200))\<rparr>"
  have ne: "?t \<noteq> []" by (simp add: lit_def)
  have load: "imageHistory (loadHistoryEffect ?en (initialState (Some ?t))) = [?a, ?a]"
    using ne by (simp add: loadHistoryEffect_def initialState_def offline_def)
  have diff: "?a \<noteq> JString (lit ''data:image/jpeg;base64,'' @ lit ''data:image/png;base64,BBBB'')"
    by (simp add: lit_def)
  have rec: "imageHistory (updateImageHistory ?cam (lit ''data:image/png;base64,BBBB'')
       (loadHistoryEffect ?en (initialState (Some ?t)))) =
     [JString (lit ''data:image/jpeg;base64,'' @ lit ''data:image/png;base64,BBBB''), ?a, ?a]"
    using diff
    by (simp only: updateImageHistory_history thumbnail_small_example load sum.case
        recordThumbnail_def MAX_HISTORY_LENGTH_def Let_def) simp
  from load rec show ?thesis by simp
qed

section \<open>Selecting a history entry\<close>

lemma handleApiError_keeps:
  "prompt (handleApiError e c s) = prompt s"
  "editPrompt (handleApiError e c s) = editPrompt s"
  "refinedPrompts (handleApiError e c s) = refinedPrompts s"
  "isUploadedImage (handleApiError e c s) = isUploadedImage s"
  "imageHistory (handleApiError e c s) = imageHistory s"
  "calls (handleApiError e c s) = calls s"
  by (simp_all add: handleApiError_def addToast_def split: option.splits prod.splits)

lemma handleApiError_error:
  "error (handleApiError e c s) =
     (case apiErrorReport e c of None \<Rightarrow> error s | Some r \<Rightarrow> Some (snd r))"
  by (simp add: handleApiError_def addToast_def split: option.splits prod.splits)

lemma apiErrorReport_suggest: "apiErrorReport e CtxSuggest \<noteq> None"
  by (simp add: apiErrorReport_def Let_def)

lemma handleSuggestEdits_keeps:
  "imageUrl (handleSuggestEdits en u s) = imageUrl s"
  "undoStack (handleSuggestEdits en u s) = undoStack s"
  "prompt (handleSuggestEdits en u s) = prompt s"
  "editPrompt (handleSuggestEdits en u s) = editPrompt s"
  "refinedPrompts (handleSuggestEdits en u s) = refinedPrompts s"
  "isUploadedImage (handleSuggestEdits en u s) = isUploadedImage s"
  "imageHistory (handleSuggestEdits en u s) = imageHistory s"
  "calls (handleSuggestEdits en u s) = calls s @ [SuggestEditsCall u]"
  by (simp_all add: handleSuggestEdits_def Let_def handleApiError_frame handleApiError_keeps
      split: sum.splits)

lemma handleSuggestEdits_error:
  "error (handleSuggestEdits en u s) =
     (case suggestEdits en u of
        Inr r \<Rightarrow> None
      | Inl e \<Rightarrow> map_option snd (apiErrorReport e CtxSuggest))"
  using apiErrorReport_suggest
  by (auto simp add: handleSuggestEdits_def Let_def handleApiError_error split: sum.splits option.splits)

lemma handleSuggestEdits_suggested:
  "suggestedEdits (handleSuggestEdits en u s) =
     (case suggestEdits en u of Inr r \<Rightarrow> Some r | Inl e \<Rightarrow> None)"
  by (simp add: handleSuggestEdits_def Let_def handleApiError_def addToast_def
      split: sum.splits option.splits prod.splits)

lemma updateImageHistory_keeps:
  "calls (updateImageHistory en u s) = calls s"
  "imageUrl (updateImageHistory en u s) = imageUrl s"
  "undoStack (updateImageHistory en u s) = undoStack s"
  by (simp_all add: updateImageHistory_def thumbnailSettled_def saveHistoryEffect_def addToast_def
      Let_def split: sum.splits option.splits)

lemma rollbackEdit_calls: "calls (rollbackEdit s) = calls s"
  by (simp add: rollbackEdit_def split: list.splits)

lemma handleEditImage_first_call:
  assumes "trim (finalEditPrompt a (editPrompt s)) \<noteq> []" "imageUrl s = Some h" "h \<noteq> []"
  shows "take (Suc (length (calls s))) (calls (handleEditImage en a s)) =
           calls s @ [EditImageCall h (finalEditPrompt a (editPrompt s))]"
  using assms
  by (simp add: handleEditImage_def Let_def handleSuggestEdits_keeps updateImageHistory_keeps
      handleApiError_keeps rollbackEdit_calls split: sum.splits)

text \<open>
  C10. \<open>handleHistoryImageClick\<close> makes the selected entry itself the current image,
  empties the undo chain and both prompt fields, clears the refined prompts, marks the
  image as uploaded and calls \<open>suggestEdits\<close> on the entry; it clears the error before
  that call, so the error that stood before is gone (what remains is the error of the
  suggestion call, if it is rejected). The entry
  that \<open>updateImageHistory\<close> puts first in the history is the thumbnail, not the image it
  was given. An edit or a suggestion run on the state after the selection is issued
  against the selected entry.
\<close>

theorem history_click_loads_thumbnail:
  "imageUrl (handleHistoryImageClick en h s) = Some h \<and>
   undoStack (handleHistoryImageClick en h s) = [] \<and>
   prompt (handleHistoryImageClick en h s) = [] \<and>
   editPrompt (handleHistoryImageClick en h s) = [] \<and>
   refinedPrompts (handleHistoryImageClick en h s) = None \<and>
   isUploadedImage (handleHistoryImageClick en h s) \<and>
   error (historyImageSelected h s) = None \<and>
   error (handleHistoryImageClick en h s) =
     (case suggestEdits en h of
        Inr r \<Rightarrow> None
      | Inl e \<Rightarrow> map_option snd (apiErrorReport e CtxSuggest)) \<and>
   calls (handleHistoryImageClick en h s) = calls s @ [SuggestEditsCall h] \<and>
   (\<forall>en0 u t s0. createThumbnailDataUri en0 u 400 = Inr t \<longrightarrow>
      hd (imageHistory (updateImageHistory en0 u s0)) = JString t) \<and>
   (\<forall>en1 a. trim (finalEditPrompt a []) \<noteq> [] \<and> h \<noteq> [] \<longrightarrow>
      take (Suc (length (calls (handleHistoryImageClick en h s))))
        (calls (handleEditImage en1 a (handleHistoryImageClick en h s))) =
        calls (handleHistoryImageClick en h s) @ [EditImageCall h (finalEditPrompt a [])]) \<and>
   (\<forall>en1. calls (handleSuggestEdits en1 h (handleHistoryImageClick en h s)) =
        calls (handleHistoryImageClick en h s) @ [SuggestEditsCall h])"
proof -
  let ?s' = "handleHistoryImageClick en h s"
  have basic: "imageUrl ?s' = Some h" "undoStack ?s' = []" "prompt ?s' = []" "editPrompt ?s' = []"
    "refinedPrompts ?s' = None" "isUploadedImage ?s'" "calls ?s' = calls s @ [SuggestEditsCall h]"
    by (simp_all add: handleHistoryImageClick_def historyImageSelected_def
        handleSuggestEdits_keeps addToast_def)
  have sel: "error (historyImageSelected h s) = None"
    by (simp add: historyImageSelected_def addToast_def)
  have err: "error ?s' =
     (case suggestEdits en h of Inr r \<Rightarrow> None | Inl e \<Rightarrow> map_option snd (apiErrorReport e CtxSuggest))"
    by (simp add: handleHistoryImageClick_def handleSuggestEdits_error)
  have thumb: "hd (imageHistory (updateImageHistory en0 u s0)) = JString t"
    if "createThumbnailDataUri en0 u 400 = Inr t" for en0 u t s0
    using that
    by (simp add: updateImageHistory_def thumbnailSettled_def saveHistoryEffect_def addToast_def
        recordThumbnail_def MAX_HISTORY_LENGTH_def Let_def split: option.splits)
  have edit: "take (Suc (length (calls ?s'))) (calls (handleEditImage en1 a ?s')) =
        calls ?s' @ [EditImageCall h (finalEditPrompt a [])]"
    if "trim (finalEditPrompt a []) \<noteq> [] \<and> h \<noteq> []" for en1 a
    using handleEditImage_first_call[of a ?s' h en1] that basic(1) basic(4) by simp
  have sug: "calls (handleSuggestEdits en1 h ?s') = calls ?s' @ [SuggestEditsCall h]" for en1
    by (simp add: handleSuggestEdits_keeps)
  from basic sel err thumb edit sug show ?thesis by blast
qed

theorem history_click_loads_thumbnail_witness:
  "createThumbnailDataUri (offline\<lparr>loadImage := (\<lambda>u. Some (300, 200))\<rparr>)
      (lit ''data:image/png;base64,BBBB'') 400 =
     Inr (lit ''data:image/jpeg;base64,'' @ lit ''data:image/png;base64,BBBB'') \<and>
   hd (imageHistory (updateImageHistory (offline\<lparr>loadImage := (\<lambda>u. Some (300, 200))\<rparr>)
      (lit ''data:image/png;base64,BBBB'') (initialState None))) =
     JString (lit ''data:image/jpeg;base64,'' @ lit ''data:image/png;base64,BBBB'') \<and>
   imageUrl (handleHistoryImageClick offline
      (lit ''data:image/jpeg;base64,'' @ lit ''data:image/png;base64,BBBB'') (initialState None)) =
     Some (lit ''data:image/jpeg;base64,'' @ lit ''data:image/png;base64,BBBB'') \<and>
   trim (finalEditPrompt (Some (lit ''make the sky red'')) []) \<noteq> [] \<and>
   take (Suc (length (calls (handleHistoryImageClick offline
      (lit ''data:image/jpeg;base64,'' @ lit ''data:image/png;base64,BBBB'') (initialState None)))))
     (calls (handleEditImage offline (Some (lit ''make the sky red''))
        (handleHistoryImageClick offline
           (lit ''data:image/jpeg;base64,'' @ lit ''data:image/png;base64,BBBB'') (initialState None)))) =
     calls (handleHistoryImageClick offline
        (lit ''data:image/jpeg;base64,'' @ lit ''data:image/png;base64,BBBB'') (initialState None)) @
     [EditImageCall (lit ''data:image/jpeg;base64,'' @ lit ''data:image/png;base64,BBBB'')
        (finalEditPrompt (Some (lit ''make the sky red'')) [])]"
proof -
  let ?cam = "offline\<lparr>loadImage := (\<lambda>u. Some (300, 200))\<rparr>"
  let ?u = "lit ''data:image/png;base64,BBBB''"
  let ?t = "lit ''data:image/jpeg;base64,'' @ ?u"
  let ?a = "Some (lit ''make the sky red'')"
  have th: "createThumbnailDataUri ?cam ?u 400 = Inr ?t"
    by (rule thumbnail_small_example)
  have fp: "finalEditPrompt ?a [] = lit ''make the sky red''"
    by (simp add: finalEditPrompt_def lit_def)
  have tr: "trim (finalEditPrompt ?a []) \<noteq> []"
    by (simp only: fp trim_red not_False_eq_True)
  have ne: "?t \<noteq> []" by (simp add: lit_def)
  note T = history_click_loads_thumbnail[of offline ?t "initialState None"]
  from T th have one: "hd (imageHistory (updateImageHistory ?cam ?u (initialState None))) = JString ?t"
    by blast
  from T have two: "imageUrl (handleHistoryImageClick offline ?t (initialState None)) = Some ?t"
    by blast
  from T tr ne have three:
    "take (Suc (length (calls (handleHistoryImageClick offline ?t (initialState None)))))
       (calls (handleEditImage offline ?a (handleHistoryImageClick offline ?t (initialState None)))) =
     calls (handleHistoryImageClick offline ?t (initialState None)) @
       [EditImageCall ?t (finalEditPrompt ?a [])]"
    by blast
  from th one two tr three show ?thesis by blast
qed

section \<open>Overlapping generations\<close>

text \<open>
  The task model agrees with the handler: started and resumed by the answers of the
  surroundings with nothing in between, a task ends in the state the handler returns.
\<close>

lemma generate_schedule_sequential:
  "snd (runSchedule en
     (Start i p #
      (case generateImage en p of
         Inl e \<Rightarrow> [Settle i (GenerateSettled (Inl e))]
       | Inr url \<Rightarrow>
           [Settle i (GenerateSettled (Inr url)),
            Settle i (ThumbnailSettled (createThumbnailDataUri en url 400)),
            Settle i (RefineSettled (refinePromptV2 en p))])) s) =
   handleGenerateImage en p s"
  by (simp add: runSchedule_def generateStart_def handleGenerateImage_def updateImageHistory_def
      Let_def split: sum.splits)

lemma refine_result_installed:
  "refinedPrompts (snd (generateResume en (AwaitRefine p) (RefineSettled (Inr r)) s)) = Some r"
  by (simp add: refineSettled_def generateFinally_def)

lemma two_generates:
  assumes "trim p1 \<noteq> []" "trim p2 \<noteq> []"
  shows "refinedPrompts (snd (runSchedule en
            [Start 1 p1, Settle 1 (GenerateSettled (Inr u1)), Settle 1 (ThumbnailSettled t1),
             Start 2 p2, Settle 2 (GenerateSettled (Inr u2)), Settle 2 (ThumbnailSettled t2),
             Settle 2 (RefineSettled (Inr r2)), Settle 1 (RefineSettled (Inr r1))] s)) = Some r1"
    and "refinedPrompts (snd (runSchedule en
            [Start 1 p1, Settle 1 (GenerateSettled (Inr u1)), Settle 1 (ThumbnailSettled t1),
             Start 2 p2, Settle 2 (GenerateSettled (Inr u2)), Settle 2 (ThumbnailSettled t2),
             Settle 1 (RefineSettled (Inr r1)), Settle 2 (RefineSettled (Inr r2))] s)) = Some r2"
  using assms
  by (simp_all add: runSchedule_def generateStart_def refineSettled_def generateFinally_def)

lemma trim_cat_dog: "trim (lit ''a cat'') \<noteq> []" "trim (lit ''a dog'') \<noteq> []"
  by (simp_all add: trim_empty_iff lit_def isWhiteSpace_def)

text \<open>
  C2, as the code has it. A run awaiting its refinement installs the result when it
  arrives, in every state: nothing records which run is the latest. With two valid prompts,
  the second generation started while the first awaits its refinement, the refined prompts
  standing after both runs have ended are those of the refinement that settled last: the
  first run's when it settles after the second's, the second run's otherwise.
\<close>

theorem refinement_installed_on_arrival:
  "refinedPrompts (snd (generateResume en (AwaitRefine p) (RefineSettled (Inr r)) s)) = Some r \<and>
   (trim p1 \<noteq> [] \<and> trim p2 \<noteq> [] \<longrightarrow>
      refinedPrompts (snd (runSchedule en
         [Start 1 p1, Settle 1 (GenerateSettled (Inr u1)), Settle 1 (ThumbnailSettled t1),
          Start 2 p2, Settle 2 (GenerateSettled (Inr u2)), Settle 2 (ThumbnailSettled t2),
          Settle 2 (RefineSettled (Inr r2)), Settle 1 (RefineSettled (Inr r1))] s)) = Some r1 \<and>
      refinedPrompts (snd (runSchedule en
         [Start 1 p1, Settle 1 (GenerateSettled (Inr u1)), Settle 1 (ThumbnailSettled t1),
          Start 2 p2, Settle 2 (GenerateSettled (Inr u2)), Settle 2 (ThumbnailSettled t2),
          Settle 1 (RefineSettled (Inr r1)), Settle 2 (RefineSettled (Inr r2))] s)) = Some r2)"
proof (intro conjI impI)
  show "refinedPrompts (snd (generateResume en (AwaitRefine p) (RefineSettled (Inr r)) s)) = Some r"
    by (rule refine_result_installed)
next
  assume "trim p1 \<noteq> [] \<and> trim p2 \<noteq> []"
  then have a: "trim p1 \<noteq> []" and b: "trim p2 \<noteq> []" by simp_all
  show "refinedPrompts (snd (runSchedule en
         [Start 1 p1, Settle 1 (GenerateSettled (Inr u1)), Settle 1 (ThumbnailSettled t1),
          Start 2 p2, Settle 2 (GenerateSettled (Inr u2)), Settle 2 (ThumbnailSettled t2),
          Settle 2 (RefineSettled (Inr r2)), Settle 1 (RefineSettled (Inr r1))] s)) = Some r1"
    by (rule two_generates(1)[OF a b])
  show "refinedPrompts (snd (runSchedule en
         [Start 1 p1, Settle 1 (GenerateSettled (Inr u1)), Settle 1 (ThumbnailSettled t1),
          Start 2 p2, Settle 2 (GenerateSettled (Inr u2)), Settle 2 (ThumbnailSettled t2),
          Settle 1 (RefineSettled (Inr r1)), Settle 2 (RefineSettled (Inr r2))] s)) = Some r2"
    by (rule two_generates(2)[OF a b])
qed

theorem refinement_installed_on_arrival_witness:
  "trim (lit ''a cat'') \<noteq> [] \<and> trim (lit ''a dog'') \<noteq> [] \<and>
   refinedPrompts (snd (runSchedule offline
      [Start 1 (lit ''a cat''), Settle 1 (GenerateSettled (Inr (lit ''data:image/png;base64,CAT''))),
       Settle 1 (ThumbnailSettled (Inl NonError)),
       Start 2 (lit ''a dog''), Settle 2 (GenerateSettled (Inr (lit ''data:image/png;base64,DOG''))),
       Settle 2 (ThumbnailSettled (Inl NonError)),
       Settle 1 (RefineSettled (Inr \<lparr>basic = [\<lparr>title = lit ''Cat'', description = lit ''A photorealistic cat''\<rparr>],
          intermediate = [], advanced = []\<rparr>)),
       Settle 2 (RefineSettled (Inr \<lparr>basic = [\<lparr>title = lit ''Dog'', description = lit ''A photorealistic dog''\<rparr>],
          intermediate = [], advanced = []\<rparr>))]
      (initialState None))) =
     Some \<lparr>basic = [\<lparr>title = lit ''Dog'', description = lit ''A photorealistic dog''\<rparr>],
          intermediate = [], advanced = []\<rparr>"
  using refinement_installed_on_arrival[where ?p1.0 = "lit ''a cat''" and ?p2.0 = "lit ''a dog''"
      and en = offline and s = "initialState None"
      and ?u1.0 = "lit ''data:image/png;base64,CAT''" and ?u2.0 = "lit ''data:image/png;base64,DOG''"
      and ?t1.0 = "Inl NonError" and ?t2.0 = "Inl NonError"
      and ?r1.0 = "\<lparr>basic = [\<lparr>title = lit ''Cat'', description = lit ''A photorealistic cat''\<rparr>],
          intermediate = [], advanced = []\<rparr>"
      and ?r2.0 = "\<lparr>basic = [\<lparr>title = lit ''Dog'', description = lit ''A photorealistic dog''\<rparr>],
          intermediate = [], advanced = []\<rparr>"]
    trim_cat_dog
  by blast

text \<open>
  The claim as stated fails when the first refinement settles last: its result replaces
  the one computed for the second prompt.
\<close>

theorem stale_refinement_installed_counterexample:
  "refinedPrompts (snd (runSchedule offline
      [Start 1 (lit ''a cat''), Settle 1 (GenerateSettled (Inr (lit ''data:image/png;base64,CAT''))),
       Settle 1 (ThumbnailSettled (Inl NonError)),
       Start 2 (lit ''a dog''), Settle 2 (GenerateSettled (Inr (lit ''data:image/png;base64,DOG''))),
       Settle 2 (ThumbnailSettled (Inl NonError)),
       Settle 2 (RefineSettled (Inr \<lparr>basic = [\<lparr>title = lit ''Dog'', description = lit ''A photorealistic dog''\<rparr>],
          intermediate = [], advanced = []\<rparr>)),
       Settle 1 (RefineSettled (Inr \<lparr>basic = [\<lparr>title = lit ''Cat'', description = lit ''A photorealistic cat''\<rparr>],
          intermediate = [], advanced = []\<rparr>))]
      (initialState None))) =
     Some \<lparr>basic = [\<lparr>title = lit ''Cat'', description = lit ''A photorealistic cat''\<rparr>],
          intermediate = [], advanced = []\<rparr> \<and>
   \<lparr>basic = [\<lparr>title = lit ''Cat'', description = lit ''A photorealistic cat''\<rparr>],
      intermediate = [], advanced = []\<rparr> \<noteq>
   \<lparr>basic = [\<lparr>title = lit ''Dog'', description = lit ''A photorealistic dog''\<rparr>],
      intermediate = [], advanced = []\<rparr>"
proof -
  have "lit ''Cat'' \<noteq> lit ''Dog''" by (simp add: lit_def)
  then show ?thesis
    using two_generates(1)[OF trim_cat_dog, of offline "lit ''data:image/png;base64,CAT''" "Inl NonError"
        "lit ''data:image/png;base64,DOG''" "Inl NonError"] by simp
qed

section \<open>Number arithmetic\<close>

text \<open>
  The binary exponent found by \<open>binexp\<close> brackets its argument, rounding to an integer
  moves a value by at most one half, and so \<open>fl\<close> has a relative error of at most
  \<open>2 ^ - 53\<close> on the normal range.
\<close>

lemma pow2_powi: "pow2 e = 2 powi e"
  by (simp add: pow2_def power_int_def power_one_over inverse_eq_divide)

lemma scale_exp_bounds:
  assumes "1 / 2 ^ n \<le> x" "x < 2 ^ Suc n"
  shows "2 powi (scale_exp n x) \<le> x \<and> x < 2 powi (scale_exp n x + 1)"
  using assms
proof (induction n arbitrary: x)
  case 0
  then show ?case by simp
next
  case (Suc n)
  show ?case
  proof (cases "x < 1")
    case True
    have a: "1 / 2 ^ n \<le> 2 * x"
      using Suc.prems(1) by (simp add: field_simps)
    have b: "2 * x < 2 ^ Suc n"
    proof -
      have "(1::rat) \<le> 2 ^ n" by simp
      with True have "x < 2 ^ n" by (rule less_le_trans)
      then show ?thesis by simp
    qed
    from Suc.IH[OF a b]
    have ih: "2 powi (scale_exp n (2 * x)) \<le> 2 * x" "2 * x < 2 powi (scale_exp n (2 * x) + 1)"
      by simp_all
    have e: "scale_exp (Suc n) x = scale_exp n (2 * x) - 1"
      using True by simp
    have p1: "(2::rat) powi (scale_exp n (2 * x) - 1) = 2 powi (scale_exp n (2 * x)) / 2"
      by (simp add: power_int_diff)
    have p2: "(2::rat) powi (scale_exp n (2 * x) + 1) = 2 powi (scale_exp n (2 * x)) * 2"
      by (simp add: power_int_add)
    from ih(2) have "x < 2 powi (scale_exp n (2 * x))"
      by (simp only: p2)
    with ih(1) show ?thesis
      unfolding e p1 by simp
  next
    case False
    note ge1 = this
    show ?thesis
    proof (cases "2 \<le> x")
      case True
      have a: "1 / 2 ^ n \<le> x / 2"
      proof -
        have "1 / 2 ^ n \<le> (1::rat)" by (simp add: field_simps)
        also have "\<dots> \<le> x / 2" using True by simp
        finally show ?thesis .
      qed
      have b: "x / 2 < 2 ^ Suc n"
        using Suc.prems(2) by simp
      from Suc.IH[OF a b]
      have ih: "2 powi (scale_exp n (x / 2)) \<le> x / 2" "x / 2 < 2 powi (scale_exp n (x / 2) + 1)"
        by simp_all
      have e: "scale_exp (Suc n) x = scale_exp n (x / 2) + 1"
        using True ge1 by simp
      have p2: "(2::rat) powi (scale_exp n (x / 2) + 1) = 2 powi (scale_exp n (x / 2)) * 2"
        by (simp add: power_int_add)
      have p3: "(2::rat) powi (scale_exp n (x / 2) + 1 + 1) = 2 powi (scale_exp n (x / 2)) * 4"
        by (simp add: power_int_add)
      from ih(2) have "x < 2 powi (scale_exp n (x / 2)) * 4"
        by (simp only: p2)
      with ih(1) show ?thesis
        unfolding e p2 p3 by simp
    next
      case False
      with ge1 show ?thesis by simp
    qed
  qed
qed

lemma binexp_bounds:
  assumes lo: "1 / 2 ^ k \<le> x" and hi: "x < 2 ^ k" and k: "k \<le> EXPONENT_FUEL"
  shows "2 powi (binexp x) \<le> x \<and> x < 2 powi (binexp x + 1)"
proof -
  have pk: "(2::rat) ^ k \<le> 2 ^ EXPONENT_FUEL"
    using k by (intro power_increasing) simp_all
  have "(0::rat) < 1 / 2 ^ k" by simp
  then have pos: "0 < x" using lo by (rule less_le_trans)
  have "1 / 2 ^ EXPONENT_FUEL \<le> 1 / (2::rat) ^ k"
    using pk by (simp add: divide_simps)
  then have a: "1 / 2 ^ EXPONENT_FUEL \<le> x" using lo by (rule order_trans)
  have "(2::rat) ^ EXPONENT_FUEL \<le> 2 ^ Suc EXPONENT_FUEL"
    by (intro power_increasing) simp_all
  with pk have "(2::rat) ^ k \<le> 2 ^ Suc EXPONENT_FUEL" by (rule order_trans)
  with hi have b: "x < 2 ^ Suc EXPONENT_FUEL" by (rule less_le_trans)
  from scale_exp_bounds[OF a b] pos show ?thesis
    by (simp add: binexp_def)
qed

lemma round_half_even_error: "\<bar>of_int (round_half_even q) - q\<bar> \<le> 1 / 2"
proof -
  have "of_int \<lfloor>q\<rfloor> \<le> q" "q < of_int \<lfloor>q\<rfloor> + 1"
    by linarith+
  then show ?thesis
    by (auto simp add: round_half_even_def Let_def abs_le_iff)
qed

lemma fl_error:
  assumes lo: "1 / 2 ^ k \<le> x" and hi: "x < 2 ^ k" and k: "k \<le> 1022"
  shows "\<bar>fl x - x\<bar> \<le> x / 2 ^ 53"
proof -
  have "(0::rat) < 1 / 2 ^ k" by simp
  then have pos: "0 < x" using lo by (rule less_le_trans)
  have kf: "k \<le> EXPONENT_FUEL" using k by (simp add: EXPONENT_FUEL_def)
  from binexp_bounds[OF lo hi kf]
  have b1: "2 powi (binexp x) \<le> x" and b2: "x < 2 powi (binexp x + 1)" by simp_all
  have ek: "- int k \<le> binexp x"
  proof (rule ccontr)
    assume "\<not> - int k \<le> binexp x"
    then have "binexp x + 1 \<le> - int k" by simp
    then have "(2::rat) powi (binexp x + 1) \<le> 2 powi (- int k)"
      by (rule power_int_increasing) simp
    also have "\<dots> = 1 / 2 ^ k"
      by (simp add: power_int_minus inverse_eq_divide)
    also have "\<dots> \<le> x" by (rule lo)
    finally show False using b2 by simp
  qed
  with k have e: "max (binexp x) (- 1022) = binexp x" by simp
  define u where "u = pow2 (binexp x - 52)"
  have u: "u = 2 powi (binexp x) / 2 ^ 52"
    by (simp add: u_def pow2_powi power_int_diff)
  have upos: "0 < u" by (simp add: u)
  have flx: "fl x = of_int (round_half_even (x / u)) * u"
    using pos by (simp add: fl_def Let_def e u_def)
  have "fl x - x = (of_int (round_half_even (x / u)) - x / u) * u"
    using upos by (simp add: flx algebra_simps)
  then have "\<bar>fl x - x\<bar> = \<bar>of_int (round_half_even (x / u)) - x / u\<bar> * u"
    using upos by (simp add: abs_mult)
  also have "\<dots> \<le> (1 / 2) * u"
    using upos round_half_even_error[of "x / u"] by (intro mult_right_mono) simp_all
  also have "\<dots> = 2 powi (binexp x) / 2 ^ 53"
    by (simp add: u)
  also have "\<dots> \<le> x / 2 ^ 53"
    using b1 by (simp add: divide_right_mono)
  finally show ?thesis .
qed

lemma fl_zero: "fl 0 = 0"
  by (simp add: fl_def)

text \<open>
  The shorter side of a scaled image. With \<open>L\<close> the longer side, above 400, and
  \<open>S\<close> the other one, the canvas receives \<open>S * (400 / L)\<close> computed in Number
  arithmetic and truncated: an integer between the exact quotient \<open>400 * S / L\<close> less
  one and that quotient. The two roundings together err by less than \<open>2 ^ - 43\<close>, and the
  exact quotient has denominator \<open>L\<close> below \<open>2 ^ 32\<close>, which leaves no room for an integer
  in between.
\<close>

lemma scaled_side:
  fixes L S :: nat
  assumes L400: "400 < L" and SL: "S \<le> L" and L32: "L < 2 ^ 32"
  defines "c \<equiv> toUnsignedLong (js_mul (of_nat S) (js_div 400 (of_nat L)))"
  shows "of_nat c \<le> 400 * (of_nat S :: rat) / of_nat L \<and>
         400 * (of_nat S :: rat) / of_nat L - 1 \<le> of_nat c"
proof -
  define l :: rat where "l = of_nat L"
  define s :: rat where "s = of_nat S"
  define x where "x = 400 / l"
  define f where "f = fl x"
  define p where "p = s * f"
  define g where "g = fl p"
  define y where "y = 400 * s / l"
  define E :: rat where "E = 1 / 2 ^ 53"
  have l400: "400 < l" using L400 by (simp add: l_def)
  have l32: "l < 2 ^ 32"
  proof -
    have "(of_nat L :: rat) < of_nat (2 ^ 32)" using L32 by (simp only: of_nat_less_iff)
    then show ?thesis by (simp add: l_def)
  qed
  have lpos: "0 < l" using l400 by simp
  have s0: "0 \<le> s" by (simp add: s_def)
  have sl: "s \<le> l" using SL by (simp add: s_def l_def)
  have xpos: "0 < x" using lpos by (simp add: x_def)
  have xlo: "1 / 2 ^ 24 \<le> x"
    using l32 lpos by (simp add: x_def field_simps)
  have xhi: "x < 2 ^ 24"
    using l400 lpos by (simp add: x_def field_simps)
  have ferr: "\<bar>f - x\<bar> \<le> x * E"
    using fl_error[OF xlo xhi] by (simp add: f_def E_def)
  have y0: "0 \<le> y" using s0 lpos by (simp add: y_def)
  have y400: "y \<le> 400"
    using sl lpos by (simp add: y_def field_simps)
  have yx: "y = s * x" by (simp add: y_def x_def)
  have perr: "\<bar>p - y\<bar> \<le> y * E"
  proof -
    have "p - y = s * (f - x)" by (simp add: p_def yx algebra_simps)
    then have "\<bar>p - y\<bar> = s * \<bar>f - x\<bar>" using s0 by (simp add: abs_mult)
    also have "\<dots> \<le> s * (x * E)" using ferr s0 by (rule mult_left_mono)
    finally show ?thesis by (simp add: yx algebra_simps)
  qed
  have gerr: "\<bar>g - p\<bar> \<le> p * E \<and> 0 \<le> g"
  proof (cases "S = 0")
    case True
    then have "p = 0" by (simp add: p_def s_def)
    then show ?thesis by (simp add: g_def fl_zero)
  next
    case False
    then have s1: "1 \<le> s" by (simp add: s_def)
    have fge: "x / 2 \<le> f"
    proof -
      have "x * E \<le> x / 2" using xpos by (simp add: E_def)
      with ferr show ?thesis by (simp add: abs_le_iff)
    qed
    have fle: "f \<le> 2 * x"
    proof -
      have "x * E \<le> x" using xpos by (simp add: E_def)
      with ferr show ?thesis by (simp add: abs_le_iff)
    qed
    have f0: "0 \<le> f" using fge xpos by simp
    have "1 / 2 ^ 25 \<le> x / 2" using xlo by simp
    also have "\<dots> \<le> f" by (rule fge)
    also have "f \<le> s * f" using s1 f0 by (simp add: mult_le_cancel_right1)
    finally have plo: "1 / 2 ^ 25 \<le> p" by (simp add: p_def)
    have "p \<le> l * f" unfolding p_def using sl f0 by (rule mult_right_mono)
    also have "\<dots> \<le> l * (2 * x)" using fle lpos by (simp add: mult_left_mono)
    also have "\<dots> = 800" using lpos by (simp add: x_def)
    finally have phi: "p < 2 ^ 25" by simp
    have "\<bar>g - p\<bar> \<le> p * E"
      using fl_error[OF plo phi] by (simp add: g_def E_def)
    moreover have "0 \<le> g"
    proof -
      have "0 < p" using plo by (rule less_le_trans[rotated]) simp
      then have pe: "p * E \<le> p" by (simp add: E_def)
      from \<open>\<bar>g - p\<bar> \<le> p * E\<close> have "p - g \<le> p * E" by (simp add: abs_le_iff)
      with pe show ?thesis by linarith
    qed
    ultimately show ?thesis by simp
  qed
  define d :: rat where "d = 400 * E * (2 + E)"
  have gy: "\<bar>g - y\<bar> \<le> d"
  proof -
    have E0: "0 \<le> E" by (simp add: E_def)
    have "p \<le> y + y * E" using perr by (simp add: abs_le_iff)
    then have "p * E \<le> (y + y * E) * E" using E0 by (rule mult_right_mono)
    then have "\<bar>g - p\<bar> \<le> (y + y * E) * E" using gerr by simp
    then have "\<bar>g - y\<bar> \<le> (y + y * E) * E + y * E" using perr by simp
    also have "\<dots> = y * (E * (2 + E))" by (simp add: algebra_simps)
    also have "\<dots> \<le> 400 * (E * (2 + E))"
      using y400 E0 by (intro mult_right_mono) simp_all
    finally show ?thesis by (simp add: d_def algebra_simps)
  qed
  have d0: "0 \<le> d" by (simp add: d_def E_def)
  have dl: "d * l < 1"
  proof -
    have "d * l \<le> d * 2 ^ 32" using l32 d0 by (intro mult_left_mono) simp_all
    also have "\<dots> < 1" by (simp add: d_def E_def)
    finally show ?thesis .
  qed
  have g0: "0 \<le> g" using gerr by simp
  have ghi: "g < 2 ^ 32"
  proof -
    have "d \<le> 1" by (simp add: d_def E_def)
    with gy y400 show ?thesis by (simp add: abs_le_iff)
  qed
  have cfl: "int c = \<lfloor>g\<rfloor>"
  proof -
    have "0 \<le> \<lfloor>g\<rfloor>" using g0 by simp
    moreover have "\<lfloor>g\<rfloor> < 2 ^ 32" using ghi by (simp add: floor_less_iff)
    ultimately show ?thesis
      using g0 by (simp add: c_def toUnsignedLong_def js_mul_def js_div_def g_def p_def f_def
          x_def s_def l_def)
  qed
  have c_le: "of_nat c \<le> g" and c_gt: "g - 1 < of_nat c"
  proof -
    have "(of_nat c :: rat) = of_int \<lfloor>g\<rfloor>" using cfl by (metis of_int_of_nat_eq)
    then show "of_nat c \<le> g" "g - 1 < of_nat c" by linarith+
  qed
  have up: "of_nat c * l \<le> 400 * s"
  proof -
    have "of_nat c \<le> y + d" using c_le gy by (simp add: abs_le_iff)
    then have "of_nat c * l \<le> (y + d) * l" using lpos by (simp add: mult_right_mono)
    also have "\<dots> = 400 * s + d * l" using lpos by (simp add: y_def algebra_simps)
    also have "\<dots> < 400 * s + 1" using dl by simp
    finally have "(of_nat (c * L) :: rat) < of_nat (400 * S + 1)"
      by (simp add: l_def s_def)
    then have "c * L < 400 * S + 1" by (simp only: of_nat_less_iff)
    then have "c * L \<le> 400 * S" by simp
    then have "(of_nat (c * L) :: rat) \<le> of_nat (400 * S)" by (simp only: of_nat_le_iff)
    then show ?thesis by (simp add: l_def s_def)
  qed
  have down: "400 * s - l \<le> of_nat c * l"
  proof -
    have "y - d - 1 < of_nat c" using c_gt gy by (simp add: abs_le_iff)
    then have "(y - d - 1) * l < of_nat c * l" using lpos by (simp add: mult_strict_right_mono)
    moreover have "(y - d - 1) * l = 400 * s - d * l - l"
      using lpos by (simp add: y_def algebra_simps)
    ultimately have "400 * s - l - 1 < of_nat c * l" using dl by simp
    then have "(of_nat (400 * S) :: rat) < of_nat (c * L + L + 1)"
      by (simp add: l_def s_def)
    then have "400 * S < c * L + L + 1" by (simp only: of_nat_less_iff)
    then have "400 * S \<le> c * L + L" by simp
    then have "(of_nat (400 * S) :: rat) \<le> of_nat (c * L + L)" by (simp only: of_nat_le_iff)
    then show ?thesis by (simp add: l_def s_def)
  qed
  from up down lpos show ?thesis
    by (simp add: l_def[symmetric] s_def[symmetric] field_simps)
qed

lemma toUnsignedLong_of_nat:
  assumes "n < 2 ^ 32"
  shows "toUnsignedLong (of_nat n) = n"
proof -
  have "int n < 2 ^ 32" using assms by (metis of_nat_less_iff of_nat_numeral of_nat_power)
  then have "int n mod 2 ^ 32 = int n" by simp
  then show ?thesis by (simp add: toUnsignedLong_def)
qed

lemma scaled_side_le:
  fixes L S :: nat
  assumes "400 < L" "S \<le> L" "L < 2 ^ 32"
  shows "toUnsignedLong (js_mul (of_nat S) (js_div 400 (of_nat L))) \<le> 400"
proof -
  let ?c = "toUnsignedLong (js_mul (of_nat S) (js_div 400 (of_nat L)))"
  from scaled_side[OF assms] have "of_nat ?c \<le> 400 * (of_nat S :: rat) / of_nat L" by simp
  also have "\<dots> \<le> 400"
    using assms(1,2) by (simp add: field_simps)
  finally have "(of_nat ?c :: rat) \<le> of_nat 400" by simp
  then show ?thesis by (simp only: of_nat_le_iff)
qed

lemma thumbnail_wide:
  assumes "unat h < unat w" "400 < unat w"
  shows "canvas_width (thumbnailDrawing u (w, h) 400) = 400"
    and "canvas_height (thumbnailDrawing u (w, h) 400) =
           toUnsignedLong (js_mul (of_nat (unat h)) (js_div 400 (of_nat (unat w))))"
proof -
  have "toUnsignedLong 400 = 400"
    using toUnsignedLong_of_nat[of 400] by simp
  with assms show "canvas_width (thumbnailDrawing u (w, h) 400) = 400"
    and "canvas_height (thumbnailDrawing u (w, h) 400) =
           toUnsignedLong (js_mul (of_nat (unat h)) (js_div 400 (of_nat (unat w))))"
    by (simp_all add: thumbnailDrawing_def scaledSize_def del: of_nat_unat)
qed

lemma thumbnail_tall:
  assumes "unat w \<le> unat h" "400 < unat h"
  shows "canvas_height (thumbnailDrawing u (w, h) 400) = 400"
    and "canvas_width (thumbnailDrawing u (w, h) 400) =
           toUnsignedLong (js_mul (of_nat (unat w)) (js_div 400 (of_nat (unat h))))"
proof -
  have "toUnsignedLong 400 = 400"
    using toUnsignedLong_of_nat[of 400] by simp
  with assms show "canvas_height (thumbnailDrawing u (w, h) 400) = 400"
    and "canvas_width (thumbnailDrawing u (w, h) 400) =
           toUnsignedLong (js_mul (of_nat (unat w)) (js_div 400 (of_nat (unat h))))"
    by (simp_all add: thumbnailDrawing_def scaledSize_def del: of_nat_unat)
qed

lemma thumbnail_small:
  assumes "unat w \<le> 400" "unat h \<le> 400"
  shows "canvas_width (thumbnailDrawing u (w, h) 400) = unat w \<and>
         canvas_height (thumbnailDrawing u (w, h) 400) = unat h"
proof -
  have "toUnsignedLong (of_nat (unat w)) = unat w" "toUnsignedLong (of_nat (unat h)) = unat h"
    using assms by (simp_all add: toUnsignedLong_of_nat del: of_nat_unat)
  with assms show ?thesis
    by (simp add: thumbnailDrawing_def scaledSize_def del: of_nat_unat)
qed

lemma unat32: "unat (w :: 32 word) < 2 ^ 32"
  using unsigned_less[of w] by simp

lemma quality_error: "\<bar>JPEG_QUALITY - 7 / 10\<bar> \<le> (7 / 10) / 2 ^ 53"
proof -
  have "1 / 2 ^ 1 \<le> (7 / 10 :: rat)" "(7 / 10 :: rat) < 2 ^ 1" by simp_all
  from fl_error[OF this] show ?thesis by (simp add: JPEG_QUALITY_def)
qed

text \<open>Some values, computed: the Numbers 0.7, 0.1 and 0.4, and a few canvas sizes.\<close>

lemma number_examples:
  "fl (7 / 10) = 3152519739159347 / 4503599627370496"
  "fl (1 / 10) = 3602879701896397 / 36028797018963968"
  "js_div 400 1000 = 3602879701896397 / 9007199254740992"
  "js_mul 500 (js_div 400 1000) = 200"
  "toUnsignedLong (js_mul 1200 (js_div 400 1203)) = 399"
  "toUnsignedLong (js_mul 401 (js_div 400 401)) = 400"
  "toUnsignedLong (js_mul 1 (js_div 400 100000)) = 0"
  by code_simp+

lemma thumbnail_examples:
  "canvas_height (thumbnailDrawing u (1203, 1200) 400) = 399"
  "canvas_width (thumbnailDrawing u (401, 401) 400) = 400"
proof -
  have "canvas_height (thumbnailDrawing u (1203, 1200) 400) =
          toUnsignedLong (js_mul (of_nat (unat (1200 :: 32 word))) (js_div 400 (of_nat (unat (1203 :: 32 word)))))"
    by (rule thumbnail_wide(2)) simp_all
  then show "canvas_height (thumbnailDrawing u (1203, 1200) 400) = 399"
    by (simp add: number_examples del: of_nat_unat)
  have "canvas_width (thumbnailDrawing u (401, 401) 400) =
          toUnsignedLong (js_mul (of_nat (unat (401 :: 32 word))) (js_div 400 (of_nat (unat (401 :: 32 word)))))"
    by (rule thumbnail_tall(2)) simp_all
  then show "canvas_width (thumbnailDrawing u (401, 401) 400) = 400"
    by (simp add: number_examples del: of_nat_unat)
qed

section \<open>Thumbnail dimensions\<close>

text \<open>
  C5. For an image of intrinsic width \<open>w\<close> and height \<open>h\<close> whose longer side exceeds
  400, the longer side of the thumbnail canvas is exactly 400: the side that was longer
  is set to 400 and the other one to the proportional value \<open>400 * short / long\<close>, up to
  one unit below it (the rounding of the Number arithmetic and the truncation of the
  canvas). When both sides are at most 400 the canvas has the width and height of the
  image. Whenever the image loads and a drawing context exists, the result is the canvas
  encoded as \<open>image/jpeg\<close> at the quality given by the Number \<open>0.7\<close>.
\<close>

theorem thumbnail_dimension_bound:
  "(400 < max (unat w) (unat h) \<longrightarrow>
      max (canvas_width (thumbnailDrawing u (w, h) 400))
          (canvas_height (thumbnailDrawing u (w, h) 400)) = 400 \<and>
      (unat h < unat w \<longrightarrow>
         canvas_width (thumbnailDrawing u (w, h) 400) = 400 \<and>
         rat_of_nat (canvas_height (thumbnailDrawing u (w, h) 400))
           \<le> 400 * rat_of_nat (unat h) / rat_of_nat (unat w) \<and>
         400 * rat_of_nat (unat h) / rat_of_nat (unat w) - 1
           \<le> rat_of_nat (canvas_height (thumbnailDrawing u (w, h) 400))) \<and>
      (unat w \<le> unat h \<longrightarrow>
         canvas_height (thumbnailDrawing u (w, h) 400) = 400 \<and>
         rat_of_nat (canvas_width (thumbnailDrawing u (w, h) 400))
           \<le> 400 * rat_of_nat (unat w) / rat_of_nat (unat h) \<and>
         400 * rat_of_nat (unat w) / rat_of_nat (unat h) - 1
           \<le> rat_of_nat (canvas_width (thumbnailDrawing u (w, h) 400)))) \<and>
   (unat w \<le> 400 \<and> unat h \<le> 400 \<longrightarrow>
      canvas_width (thumbnailDrawing u (w, h) 400) = unat w \<and>
      canvas_height (thumbnailDrawing u (w, h) 400) = unat h) \<and>
   (loadImage en u = Some (w, h) \<and> getContext2d en \<longrightarrow>
      createThumbnailDataUri en u 400 =
        Inr (toDataURL en (thumbnailDrawing u (w, h) 400) (lit ''image/jpeg'') JPEG_QUALITY)) \<and>
   \<bar>JPEG_QUALITY - 7 / 10\<bar> \<le> (7 / 10) / 2 ^ 53"
proof (intro conjI impI)
  assume big: "400 < max (unat w) (unat h)"
  show "max (canvas_width (thumbnailDrawing u (w, h) 400))
          (canvas_height (thumbnailDrawing u (w, h) 400)) = 400"
  proof (cases "unat h < unat w")
    case True
    with big have w: "400 < unat w" by simp
    from True have "unat h \<le> unat w" by simp
    from scaled_side_le[OF w this unat32]
    show ?thesis by (simp add: thumbnail_wide[OF True w] del: of_nat_unat)
  next
    case False
    then have le: "unat w \<le> unat h" by simp
    with big have h: "400 < unat h" by simp
    from scaled_side_le[OF h le unat32]
    show ?thesis by (simp add: thumbnail_tall[OF le h] del: of_nat_unat)
  qed
next
  assume big: "400 < max (unat w) (unat h)" and wide: "unat h < unat w"
  then have w: "400 < unat w" by simp
  from wide have le: "unat h \<le> unat w" by simp
  show "canvas_width (thumbnailDrawing u (w, h) 400) = 400"
    by (rule thumbnail_wide(1)[OF wide w])
  from scaled_side[OF w le unat32]
  show "rat_of_nat (canvas_height (thumbnailDrawing u (w, h) 400))
           \<le> 400 * rat_of_nat (unat h) / rat_of_nat (unat w)"
    and "400 * rat_of_nat (unat h) / rat_of_nat (unat w) - 1
           \<le> rat_of_nat (canvas_height (thumbnailDrawing u (w, h) 400))"
    by (simp_all add: thumbnail_wide(2)[OF wide w] del: of_nat_unat)
next
  assume big: "400 < max (unat w) (unat h)" and tall: "unat w \<le> unat h"
  then have h: "400 < unat h" by simp
  show "canvas_height (thumbnailDrawing u (w, h) 400) = 400"
    by (rule thumbnail_tall(1)[OF tall h])
  from scaled_side[OF h tall unat32]
  show "rat_of_nat (canvas_width (thumbnailDrawing u (w, h) 400))
           \<le> 400 * rat_of_nat (unat w) / rat_of_nat (unat h)"
    and "400 * rat_of_nat (unat w) / rat_of_nat (unat h) - 1
           \<le> rat_of_nat (canvas_width (thumbnailDrawing u (w, h) 400))"
    by (simp_all add: thumbnail_tall(2)[OF tall h] del: of_nat_unat)
next
  assume "unat w \<le> 400 \<and> unat h \<le> 400"
  then show "canvas_width (thumbnailDrawing u (w, h) 400) = unat w"
    and "canvas_height (thumbnailDrawing u (w, h) 400) = unat h"
    using thumbnail_small[of w h u] by simp_all
next
  assume "loadImage en u = Some (w, h) \<and> getContext2d en"
  then show "createThumbnailDataUri en u 400 =
        Inr (toDataURL en (thumbnailDrawing u (w, h) 400) (lit ''image/jpeg'') JPEG_QUALITY)"
    by (simp add: createThumbnailDataUri_def)
next
  show "\<bar>JPEG_QUALITY - 7 / 10\<bar> \<le> (7 / 10) / 2 ^ 53" by (rule quality_error)
qed

theorem thumbnail_dimension_bound_witness:
  "400 < max (unat (1203 :: 32 word)) (unat (1200 :: 32 word)) \<and>
   unat (1200 :: 32 word) < unat (1203 :: 32 word) \<and>
   max (canvas_width (thumbnailDrawing (lit ''data:I'') (1203, 1200) 400))
       (canvas_height (thumbnailDrawing (lit ''data:I'') (1203, 1200) 400)) = 400 \<and>
   canvas_width (thumbnailDrawing (lit ''data:I'') (1203, 1200) 400) = 400 \<and>
   rat_of_nat (canvas_height (thumbnailDrawing (lit ''data:I'') (1203, 1200) 400))
     \<le> 400 * rat_of_nat (unat (1200 :: 32 word)) / rat_of_nat (unat (1203 :: 32 word)) \<and>
   400 * rat_of_nat (unat (1200 :: 32 word)) / rat_of_nat (unat (1203 :: 32 word)) - 1
     \<le> rat_of_nat (canvas_height (thumbnailDrawing (lit ''data:I'') (1203, 1200) 400)) \<and>
   canvas_width (thumbnailDrawing (lit ''data:I'') (300, 200) 400) = unat (300 :: 32 word) \<and>
   canvas_height (thumbnailDrawing (lit ''data:I'') (300, 200) 400) = unat (200 :: 32 word) \<and>
   createThumbnailDataUri (offline\<lparr>loadImage := (\<lambda>u. Some (300, 200))\<rparr>) (lit ''data:I'') 400 =
     Inr (toDataURL (offline\<lparr>loadImage := (\<lambda>u. Some (300, 200))\<rparr>)
            (thumbnailDrawing (lit ''data:I'') (300, 200) 400) (lit ''image/jpeg'') JPEG_QUALITY)"
proof -
  let ?cam = "offline\<lparr>loadImage := (\<lambda>u. Some (300, 200))\<rparr>"
  have big: "400 < max (unat (1203 :: 32 word)) (unat (1200 :: 32 word))" by simp
  have wide: "unat (1200 :: 32 word) < unat (1203 :: 32 word)" by simp
  have small: "unat (300 :: 32 word) \<le> 400 \<and> unat (200 :: 32 word) \<le> 400" by simp
  have env: "loadImage ?cam (lit ''data:I'') = Some (300, 200) \<and> getContext2d ?cam"
    by (simp add: offline_def)
  note A = thumbnail_dimension_bound[where w = 1203 and h = 1200 and u = "lit ''data:I''" and en = ?cam]
  note B = thumbnail_dimension_bound[where w = 300 and h = 200 and u = "lit ''data:I''" and en = ?cam]
  note a1 = A[THEN conjunct1, THEN mp, OF big]
  note a2 = a1[THEN conjunct2, THEN conjunct1, THEN mp, OF wide]
  note b2 = B[THEN conjunct2, THEN conjunct1, THEN mp, OF small]
  note b3 = B[THEN conjunct2, THEN conjunct2, THEN conjunct1, THEN mp, OF env]
  show ?thesis
    apply (intro conjI)
            apply (rule big)
           apply (rule wide)
          apply (rule a1[THEN conjunct1])
         apply (rule a2[THEN conjunct1])
        apply (rule a2[THEN conjunct2, THEN conjunct1])
       apply (rule a2[THEN conjunct2, THEN conjunct2])
      apply (rule b2[THEN conjunct1])
     apply (rule b2[THEN conjunct2])
    apply (rule b3)
    done
qed

end
